theory Spec2Isabelle
  imports Complex_Main
begin

section \<open>Python strings as lists of code points\<close>

text \<open>
  The source works on Python \<open>str\<close> values holding Japanese text, so a string is the list
  of its Unicode code points. \<open>isspace\<close> is the set of code points that \<open>str.strip()\<close>
  removes, \<open>strip\<close> is \<open>str.strip()\<close> and \<open>replace_rparen\<close> is
  \<open>str.replace(')', '')\<close>.
\<close>

type_synonym ustring = "nat list"

definition isspace :: "nat \<Rightarrow> bool" where
  "isspace c \<longleftrightarrow>
     (0x09 \<le> c \<and> c \<le> 0x0D) \<or> (0x1C \<le> c \<and> c \<le> 0x20) \<or> c = 0x85 \<or> c = 0xA0 \<or>
     c = 0x1680 \<or> (0x2000 \<le> c \<and> c \<le> 0x200A) \<or> c = 0x2028 \<or> c = 0x2029 \<or>
     c = 0x202F \<or> c = 0x205F \<or> c = 0x3000"

definition strip :: "ustring \<Rightarrow> ustring" where
  "strip s = rev (dropWhile isspace (rev (dropWhile isspace s)))"

definition replace_rparen :: "ustring \<Rightarrow> ustring" where
  "replace_rparen s = filter (\<lambda>c. c \<noteq> 0x29) s"

section \<open>Python floats\<close>

text \<open>
  A Python float is an IEEE 754 binary64 number: a finite value, an infinity or a NaN.
  The two zeros are one value here (they compare equal in Python), and the integers the
  program mixes with floats (\<open>-9999\<close>, \<open>0\<close>, \<open>10**6\<close>, \<open>3600\<close>, the table entries) are
  the floats of the same value. \<open>round64\<close> rounds a real number to the nearest binary64
  value, ties to even, and to an infinity when the rounded magnitude reaches \<open>2^1024\<close>:
  the exponent \<open>e\<close> is that of the number (not below -1022, where the subnormal numbers
  start) and the spacing of the values around it is \<open>2^(e - 52)\<close>.
\<close>

datatype pyfloat = Finite real | PosInf | NegInf | NaN

definition round_half_even :: "real \<Rightarrow> int" where
  "round_half_even r =
     (let f = \<lfloor>r\<rfloor> in
      if r - of_int f < 1 / 2 then f
      else if r - of_int f > 1 / 2 then f + 1
      else if even f then f else f + 1)"

definition round64 :: "real \<Rightarrow> pyfloat" where
  "round64 x =
     (if x = 0 then Finite 0
      else
        let e = max \<lfloor>log 2 \<bar>x\<bar>\<rfloor> (- 1022);
            u = 2 powi (e - 52);
            y = of_int (round_half_even (x / u)) * u
        in if 2 ^ 1024 \<le> \<bar>y\<bar> then (if 0 < x then PosInf else NegInf) else Finite y)"

text \<open>
  The comparisons \<open>x >= 0\<close> and \<open>x < 0\<close> (both false on NaN), the product of two floats,
  and the quotient of a float by a finite number other than zero (the program divides by
  the literal 3600 only, so no \<open>ZeroDivisionError\<close> can arise).
\<close>

fun ge_zero :: "pyfloat \<Rightarrow> bool" where
  "ge_zero (Finite a) = (0 \<le> a)"
| "ge_zero PosInf = True"
| "ge_zero NegInf = False"
| "ge_zero NaN = False"

fun lt_zero :: "pyfloat \<Rightarrow> bool" where
  "lt_zero (Finite a) = (a < 0)"
| "lt_zero PosInf = False"
| "lt_zero NegInf = True"
| "lt_zero NaN = False"

fun fmul :: "pyfloat \<Rightarrow> pyfloat \<Rightarrow> pyfloat" where
  "fmul NaN y = NaN"
| "fmul x NaN = NaN"
| "fmul (Finite a) (Finite b) = round64 (a * b)"
| "fmul (Finite a) PosInf = (if a = 0 then NaN else if 0 < a then PosInf else NegInf)"
| "fmul (Finite a) NegInf = (if a = 0 then NaN else if 0 < a then NegInf else PosInf)"
| "fmul PosInf (Finite b) = (if b = 0 then NaN else if 0 < b then PosInf else NegInf)"
| "fmul NegInf (Finite b) = (if b = 0 then NaN else if 0 < b then NegInf else PosInf)"
| "fmul PosInf PosInf = PosInf"
| "fmul PosInf NegInf = NegInf"
| "fmul NegInf PosInf = NegInf"
| "fmul NegInf NegInf = PosInf"

fun fdiv :: "pyfloat \<Rightarrow> real \<Rightarrow> pyfloat" where
  "fdiv (Finite a) d = round64 (a / d)"
| "fdiv PosInf d = (if 0 < d then PosInf else NegInf)"
| "fdiv NegInf d = (if 0 < d then NegInf else PosInf)"
| "fdiv NaN d = NaN"

section \<open>The builtin \<open>float\<close> on strings\<close>

text \<open>
  \<open>py_float s\<close> is \<open>float(s)\<close> for a string \<open>s\<close>: \<open>None\<close> stands for \<open>ValueError\<close>, the only
  exception \<open>float\<close> raises on a string. The interpreter first maps every code point to
  ASCII (\<open>to_ascii\<close>: a code point from 127 on becomes a space when it is whitespace, its
  ASCII digit when it is a decimal digit, and \<open>?\<close> otherwise), removes the ASCII whitespace
  around the text (\<open>float_strip\<close>), and then reads
  \<^verbatim>\<open>
  digitpart   ::= digit (["_"] digit)*
  number      ::= [digitpart] "." digitpart | digitpart ["."]
  exponent    ::= ("e" | "E") [sign] digitpart
  floatvalue  ::= [sign] (number [exponent] | "inf" | "infinity" | "nan")
  \<close>
  with the three words in any case. The value of a number is rounded to binary64.
  \<open>nd_zeros\<close> lists the digit zero of every decimal digit block of Unicode 14.0
  (each block holds the ten digits in order).
\<close>

definition nd_zeros :: "nat list" where
  "nd_zeros =
     [0x30, 0x660, 0x6F0, 0x7C0, 0x966, 0x9E6, 0xA66, 0xAE6, 0xB66, 0xBE6, 0xC66, 0xCE6,
      0xD66, 0xDE6, 0xE50, 0xED0, 0xF20, 0x1040, 0x1090, 0x17E0, 0x1810, 0x1946, 0x19D0,
      0x1A80, 0x1A90, 0x1B50, 0x1BB0, 0x1C40, 0x1C50, 0xA620, 0xA8D0, 0xA900, 0xA9D0,
      0xA9F0, 0xAA50, 0xABF0, 0xFF10, 0x104A0, 0x10D30, 0x11066, 0x110F0, 0x11136,
      0x111D0, 0x112F0, 0x11450, 0x114D0, 0x11650, 0x116C0, 0x11730, 0x118E0, 0x11950,
      0x11C50, 0x11D50, 0x11DA0, 0x16A60, 0x16AC0, 0x16B50, 0x1D7CE, 0x1D7D8, 0x1D7E2,
      0x1D7EC, 0x1D7F6, 0x1E140, 0x1E2F0, 0x1E950, 0x1FBF0]"

definition todecimal :: "nat \<Rightarrow> nat option" where
  "todecimal c =
     (case find (\<lambda>z. z \<le> c \<and> c < z + 10) nd_zeros of
        Some z \<Rightarrow> Some (c - z)
      | None \<Rightarrow> None)"

definition to_ascii :: "nat \<Rightarrow> nat" where
  "to_ascii c =
     (if c < 127 then c
      else if isspace c then 0x20
      else (case todecimal c of Some d \<Rightarrow> 0x30 + d | None \<Rightarrow> 0x3F))"

definition float_isspace :: "nat \<Rightarrow> bool" where
  "float_isspace c \<longleftrightarrow> (0x09 \<le> c \<and> c \<le> 0x0D) \<or> c = 0x20"

definition float_strip :: "ustring \<Rightarrow> ustring" where
  "float_strip s = rev (dropWhile float_isspace (rev (dropWhile float_isspace s)))"

definition tolower :: "nat \<Rightarrow> nat" where
  "tolower c = (if 0x41 \<le> c \<and> c \<le> 0x5A then c + 0x20 else c)"

definition isdigit :: "nat \<Rightarrow> bool" where
  "isdigit c \<longleftrightarrow> 0x30 \<le> c \<and> c \<le> 0x39"

fun digits_rest :: "ustring \<Rightarrow> nat list \<times> ustring" where
  "digits_rest [] = ([], [])"
| "digits_rest [c] = (if isdigit c then ([c - 0x30], []) else ([], [c]))"
| "digits_rest (c # d # cs) =
     (if isdigit c then (case digits_rest (d # cs) of (ds, r) \<Rightarrow> ((c - 0x30) # ds, r))
      else if c = 0x5F \<and> isdigit d then (case digits_rest cs of (ds, r) \<Rightarrow> ((d - 0x30) # ds, r))
      else ([], c # d # cs))"

definition digitpart :: "ustring \<Rightarrow> (nat list \<times> ustring) option" where
  "digitpart s =
     (case s of
        [] \<Rightarrow> None
      | c # cs \<Rightarrow> if isdigit c then (case digits_rest cs of (ds, r) \<Rightarrow> Some ((c - 0x30) # ds, r))
                  else None)"

definition digits_value :: "nat list \<Rightarrow> nat" where
  "digits_value ds = foldl (\<lambda>a d. 10 * a + d) 0 ds"

fun sign_prefix :: "ustring \<Rightarrow> bool \<times> ustring" where
  "sign_prefix [] = (False, [])"
| "sign_prefix (c # cs) =
     (if c = 0x2D then (True, cs) else if c = 0x2B then (False, cs) else (False, c # cs))"

definition number :: "ustring \<Rightarrow> (nat list \<times> nat list \<times> ustring) option" where
  "number s =
     (case digitpart s of
        Some (ip, r) \<Rightarrow>
          (case r of
             [] \<Rightarrow> Some (ip, [], [])
           | c # r' \<Rightarrow>
               if c = 0x2E then
                 (case digitpart r' of
                    Some (fp, r'') \<Rightarrow> Some (ip, fp, r'')
                  | None \<Rightarrow> Some (ip, [], r'))
               else Some (ip, [], r))
      | None \<Rightarrow>
          (case s of
             [] \<Rightarrow> None
           | c # r' \<Rightarrow>
               if c = 0x2E then
                 (case digitpart r' of
                    Some (fp, r'') \<Rightarrow> Some ([], fp, r'')
                  | None \<Rightarrow> None)
               else None))"

definition exponent :: "ustring \<Rightarrow> int option" where
  "exponent s =
     (case s of
        [] \<Rightarrow> Some 0
      | c # r \<Rightarrow>
          if c = 0x65 \<or> c = 0x45 then
            (case sign_prefix r of
               (neg, r') \<Rightarrow>
                 (case digitpart r' of
                    Some (ds, r'') \<Rightarrow>
                      if r'' = [] then Some (if neg then - int (digits_value ds) else int (digits_value ds))
                      else None
                  | None \<Rightarrow> None))
          else None)"

definition scale10 :: "real \<Rightarrow> int \<Rightarrow> real" where
  "scale10 x e = (if 0 \<le> e then x * 10 ^ nat e else x / 10 ^ nat (- e))"

definition py_float :: "ustring \<Rightarrow> pyfloat option" where
  "py_float s =
     (case sign_prefix (float_strip (map to_ascii s)) of
        (neg, r) \<Rightarrow>
          if map tolower r = [0x69, 0x6E, 0x66]
             \<or> map tolower r = [0x69, 0x6E, 0x66, 0x69, 0x6E, 0x69, 0x74, 0x79]
          then Some (if neg then NegInf else PosInf)
          else if map tolower r = [0x6E, 0x61, 0x6E] then Some NaN
          else
            (case number r of
               None \<Rightarrow> None
             | Some (ip, fp, r') \<Rightarrow>
                 (case exponent r' of
                    None \<Rightarrow> None
                  | Some e \<Rightarrow>
                      let m = scale10 (real (digits_value ip) + real (digits_value fp) / 10 ^ length fp) e
                      in Some (round64 (if neg then - m else m)))))"

section \<open>Value converters\<close>

text \<open>
  \<^verbatim>\<open>
  MISSING_VALUE = -9999
  WIND_DIRECTION = {
      N: 0, NNE: 22.5, NE: 45, ENE: 67.5, E: 90, ESE: 112.5, SE: 135, SSE: 157.5,
      S: 180, SSW: 202.5, SW: 225, WSW: 247.5, W: 270, WNW: 292.5, NW: 315, NNW: 337.5,
      calm: 0 }
  \<close>
  with the keys written in kanji: north is U+5317, east U+6771, south U+5357, west U+897F,
  and calm is U+9759 U+7A4F.
\<close>

definition MISSING_VALUE :: real where
  "MISSING_VALUE = - 9999"

definition WIND_DIRECTION :: "(ustring \<times> real) list" where
  "WIND_DIRECTION =
     [([0x5317], 0), ([0x5317, 0x5317, 0x6771], 22.5), ([0x5317, 0x6771], 45),
      ([0x6771, 0x5317, 0x6771], 67.5),
      ([0x6771], 90), ([0x6771, 0x5357, 0x6771], 112.5), ([0x5357, 0x6771], 135),
      ([0x5357, 0x5357, 0x6771], 157.5),
      ([0x5357], 180), ([0x5357, 0x5357, 0x897F], 202.5), ([0x5357, 0x897F], 225),
      ([0x897F, 0x5357, 0x897F], 247.5),
      ([0x897F], 270), ([0x897F, 0x5317, 0x897F], 292.5), ([0x5317, 0x897F], 315),
      ([0x5317, 0x5317, 0x897F], 337.5),
      ([0x9759, 0x7A4F], 0)]"

text \<open>
  \<^verbatim>\<open>
  def str2windir(wind_str):
      try:
          if wind_str is None or wind_str in ('#', U+00D7):
              return MISSING_VALUE
          wind_str = wind_str.replace(')', '').strip()
          return WIND_DIRECTION[wind_str]
      except (KeyError, AttributeError):
          return MISSING_VALUE
  \<close>
  The lookup of a missing key raises \<open>KeyError\<close>, which the handler turns into the
  missing value: \<open>map_of\<close> returns \<open>None\<close> there.
\<close>

definition str2windir :: "ustring option \<Rightarrow> real" where
  "str2windir wind_str =
     (case wind_str of
        None \<Rightarrow> MISSING_VALUE
      | Some w \<Rightarrow>
          if w = [0x23] \<or> w = [0xD7] then MISSING_VALUE
          else (case map_of WIND_DIRECTION (strip (replace_rparen w)) of
                  Some angle \<Rightarrow> angle
                | None \<Rightarrow> MISSING_VALUE))"

text \<open>
  \<^verbatim>\<open>
  def str2float(weather_data):
      try:
          if weather_data is None:
              return 0.0
          if isinstance(weather_data, str):
              weather_data = weather_data.replace(')', '').strip()
          if weather_data == "--":
              return 0.0
          return float(weather_data)
      except (ValueError, TypeError):
          return MISSING_VALUE
  \<close>
\<close>

definition str2float :: "ustring option \<Rightarrow> pyfloat" where
  "str2float weather_data =
     (case weather_data of
        None \<Rightarrow> Finite 0
      | Some w \<Rightarrow>
          let w' = strip (replace_rparen w) in
          if w' = [0x2D, 0x2D] then Finite 0
          else (case py_float w' of Some v \<Rightarrow> v | None \<Rightarrow> Finite MISSING_VALUE))"

text \<open>
  \<^verbatim>\<open>
  def mj2w(mj_value):
      if mj_value >= 0:
          return mj_value * 10**6 / 3600
      else:
          return 0.0
  \<close>
\<close>

definition mj2w :: "pyfloat \<Rightarrow> pyfloat" where
  "mj2w mj_value =
     (if ge_zero mj_value then fdiv (fmul mj_value (Finite (10 ^ 6))) 3600 else Finite 0)"

section \<open>The retrying fetcher\<close>

text \<open>
  \<^verbatim>\<open>
  def fetch_url_with_retry(url, max_retries=MAX_RETRIES, backoff_factor=BACKOFF_FACTOR):
      for i in range(max_retries):
          try:
              response = urllib.request.urlopen(url)
              return response
          except URLError as e:
              print(...)
              if i < max_retries - 1:
                  time.sleep(backoff_factor * (2 ** i))
      raise Exception(...)
  \<close>
  The world outside is given by two functions. \<open>urlopen i\<close> is what the call of
  \<open>urllib.request.urlopen\<close> in iteration \<open>i\<close> does: it returns a response or raises.
  \<open>sleep i d\<close> is what \<open>time.sleep(d)\<close> in iteration \<open>i\<close> does: it returns (\<open>None\<close>) or
  raises (it raises \<open>ValueError\<close> on a negative delay, for one). An exception is
  \<open>URLError\<close> (with its subclasses), the \<open>Exception\<close> the fetcher raises itself, another
  instance of \<open>Exception\<close>, or an exception outside \<open>Exception\<close> such as
  \<open>KeyboardInterrupt\<close>; only \<open>URLError\<close> is handled by the loop. The delay
  \<open>backoff_factor * (2 ** i)\<close> converts the integer \<open>2 ** i\<close> to a float, which raises
  \<open>OverflowError\<close> from \<open>2 ** 1024\<close> on. The effects are kept as a trace of events, in the
  order in which they happen; the messages printed are not part of the model.
\<close>

datatype exn = URLError | Exception | ValueError | OverflowError
  | OtherException string | BaseException string

fun is_Exception :: "exn \<Rightarrow> bool" where
  "is_Exception (BaseException name) = False"
| "is_Exception e = True"

datatype event = Attempt nat | Sleep pyfloat

definition MAX_RETRIES :: int where
  "MAX_RETRIES = 3"

definition BACKOFF_FACTOR :: pyfloat where
  "BACKOFF_FACTOR = Finite 0.5"

definition delay :: "pyfloat \<Rightarrow> nat \<Rightarrow> exn + pyfloat" where
  "delay backoff_factor i =
     (if 1024 \<le> i then Inl OverflowError else Inr (fmul backoff_factor (Finite (2 ^ i))))"

function fetch_loop ::
  "(nat \<Rightarrow> exn + 'r) \<Rightarrow> (nat \<Rightarrow> pyfloat \<Rightarrow> exn option) \<Rightarrow> int \<Rightarrow> pyfloat \<Rightarrow> nat \<Rightarrow>
   (exn + 'r) \<times> event list" where
  "fetch_loop urlopen sleep max_retries backoff_factor i =
     (if int i < max_retries then
        (case urlopen i of
           Inr response \<Rightarrow> (Inr response, [Attempt i])
         | Inl e \<Rightarrow>
             if e = URLError then
               if int i < max_retries - 1 then
                 (case delay backoff_factor i of
                    Inl err \<Rightarrow> (Inl err, [Attempt i])
                  | Inr d \<Rightarrow>
                      (case sleep i d of
                         Some err \<Rightarrow> (Inl err, [Attempt i, Sleep d])
                       | None \<Rightarrow>
                           (case fetch_loop urlopen sleep max_retries backoff_factor (Suc i) of
                              (res, evs) \<Rightarrow> (res, Attempt i # Sleep d # evs))))
               else
                 (case fetch_loop urlopen sleep max_retries backoff_factor (Suc i) of
                    (res, evs) \<Rightarrow> (res, Attempt i # evs))
             else (Inl e, [Attempt i]))
      else (Inl Exception, []))"
  by pat_completeness auto
termination
  by (relation "measure (\<lambda>(urlopen, sleep, max_retries, backoff_factor, i). nat (max_retries - int i))")
    auto

definition fetch_url_with_retry ::
  "(nat \<Rightarrow> exn + 'r) \<Rightarrow> (nat \<Rightarrow> pyfloat \<Rightarrow> exn option) \<Rightarrow> int \<Rightarrow> pyfloat \<Rightarrow>
   (exn + 'r) \<times> event list" where
  "fetch_url_with_retry urlopen sleep max_retries backoff_factor =
     fetch_loop urlopen sleep max_retries backoff_factor 0"

text \<open>
  The attempts and the sleeps of a trace, in order; the delay of iteration \<open>i\<close> as a
  float; whether the sleep of iteration \<open>i\<close> returns; and the exception it ends with when
  it does not.
\<close>

definition attempts :: "event list \<Rightarrow> nat list" where
  "attempts evs = concat (map (\<lambda>e. case e of Attempt i \<Rightarrow> [i] | Sleep d \<Rightarrow> []) evs)"

definition sleeps :: "event list \<Rightarrow> pyfloat list" where
  "sleeps evs = concat (map (\<lambda>e. case e of Attempt i \<Rightarrow> [] | Sleep d \<Rightarrow> [d]) evs)"

definition backoff :: "pyfloat \<Rightarrow> nat \<Rightarrow> pyfloat" where
  "backoff backoff_factor i = fmul backoff_factor (Finite (2 ^ i))"

definition sleep_returns :: "(nat \<Rightarrow> pyfloat \<Rightarrow> exn option) \<Rightarrow> pyfloat \<Rightarrow> nat \<Rightarrow> bool" where
  "sleep_returns sleep backoff_factor i \<longleftrightarrow>
     i < 1024 \<and> sleep i (backoff backoff_factor i) = None"

definition sleep_error :: "(nat \<Rightarrow> pyfloat \<Rightarrow> exn option) \<Rightarrow> pyfloat \<Rightarrow> nat \<Rightarrow> exn" where
  "sleep_error sleep backoff_factor i =
     (if 1024 \<le> i then OverflowError
      else (case sleep i (backoff backoff_factor i) of Some err \<Rightarrow> err | None \<Rightarrow> Exception))"

section \<open>The parsed page and the row extractor\<close>

text \<open>
  What the markup parser gives: a cell is the \<open>.string\<close> of a \<open>td\<close> element (absent when
  the element has no single text child), a row is \<open>tr.find_all('td')\<close>, a table carries
  its class names and \<open>table.find_all('tr')\<close>, and a document says whether its \<open>html\<close>,
  \<open>head\<close> and \<open>body\<close> elements exist and lists its tables in document order. A response
  has its status code and the result of \<open>response.read()\<close>, the markup or an exception.
  A function ends by returning, by \<open>sys.exit\<close> or by an exception that reaches its caller.
\<close>

type_synonym cell = "ustring option"

record table =
  classes :: "string list"
  trs :: "cell list list"

record document =
  html :: bool
  head :: bool
  body :: bool
  tables :: "table list"

record response =
  getcode :: int
  read :: "exn + string"

record date =
  year :: int
  month :: int
  day :: int

datatype pyval = PyDate date | PyNone | PyStr ustring | PyFloat pyfloat

datatype 'a outcome = Returns 'a | SystemExit int | Raises exn

definition find_table :: "document \<Rightarrow> table option" where
  "find_table soup = find (\<lambda>t. ''data2_s'' \<in> set (classes t)) (tables soup)"

definition string_of :: "cell \<Rightarrow> pyval" where
  "string_of c = (case c of None \<Rightarrow> PyNone | Some s \<Rightarrow> PyStr s)"

text \<open>
  The list literal of the loop body. It reads the cells 0 to 13, and the loop builds it
  only for a row of at least 14 cells.
\<close>

definition data_row :: "date \<Rightarrow> cell list \<Rightarrow> pyval list" where
  "data_row date tds =
     [PyDate date,
      string_of (tds ! 0),
      PyFloat (str2float (tds ! 1)),
      PyFloat (str2float (tds ! 2)),
      PyFloat (str2float (tds ! 3)),
      PyFloat (str2float (tds ! 4)),
      PyFloat (str2float (tds ! 5)),
      PyFloat (str2float (tds ! 6)),
      PyFloat (str2float (tds ! 7)),
      PyFloat (str2float (tds ! 8)),
      PyFloat (Finite (str2windir (tds ! 9))),
      PyFloat (str2float (tds ! 10)),
      PyFloat (mj2w (str2float (tds ! 11))),
      PyFloat (str2float (tds ! 12)),
      PyFloat (str2float (tds ! 13))]"

text \<open>
  \<^verbatim>\<open>
  data_list_per_hour = []
  for tr in table.find_all('tr')[2:]:
      tds = tr.find_all('td')
      if len(tds) < 14:
          continue
      data_row = [...]
      data_list_per_hour.append(data_row)
  return data_list_per_hour
  \<close>
\<close>

fun rows_loop :: "date \<Rightarrow> cell list list \<Rightarrow> pyval list list \<Rightarrow> pyval list list" where
  "rows_loop date [] data_list_per_hour = data_list_per_hour"
| "rows_loop date (tds # rest) data_list_per_hour =
     (if length tds < 14 then rows_loop date rest data_list_per_hour
      else rows_loop date rest (data_list_per_hour @ [data_row date tds]))"

definition extract_rows :: "date \<Rightarrow> table \<Rightarrow> pyval list list" where
  "extract_rows date tbl = rows_loop date (drop 2 (trs tbl)) []"

section \<open>The day fetch-and-parse orchestrator\<close>

text \<open>
  \<^verbatim>\<open>
  def scraping(url, date):
      try:
          response = fetch_url_with_retry(url)
          html = response.read()
          if response.getcode() != 200:
              sys.exit(1)
          soup = BeautifulSoup(html, 'html.parser')
          if not soup.html or not soup.head or not soup.body:
              sys.exit(1)
      except URLError as e:
          sys.exit(1)
      except Exception as e:
          sys.exit(1)
      soup = BeautifulSoup(html, features="html.parser")
      table = soup.find("table", {"class": "data2_s"})
      if not table:
          sys.exit(1)
      ... the loop over the rows ...
  \<close>
  \<open>sys.exit(1)\<close> raises \<open>SystemExit\<close>, which is no \<open>Exception\<close> and passes both handlers.
  The two handlers turn every instance of \<open>Exception\<close> raised in the \<open>try\<close> block (by the
  fetcher, by \<open>response.read()\<close> or by the parser) into \<open>sys.exit(1)\<close>; any other
  exception reaches the caller. The parser is the function \<open>BeautifulSoup\<close> from the
  markup to a document or an exception; the second call, after the \<open>try\<close> block, has no
  handler around it.
\<close>

definition except_handlers :: "exn \<Rightarrow> 'a outcome" where
  "except_handlers e =
     (if e = URLError then SystemExit 1
      else if is_Exception e then SystemExit 1
      else Raises e)"

definition scraping ::
  "(nat \<Rightarrow> exn + response) \<Rightarrow> (nat \<Rightarrow> pyfloat \<Rightarrow> exn option) \<Rightarrow> (string \<Rightarrow> exn + document) \<Rightarrow>
   date \<Rightarrow> pyval list list outcome" where
  "scraping urlopen sleep BeautifulSoup date =
     (case fst (fetch_url_with_retry urlopen sleep MAX_RETRIES BACKOFF_FACTOR) of
        Inl e \<Rightarrow> except_handlers e
      | Inr response \<Rightarrow>
          (case read response of
             Inl e \<Rightarrow> except_handlers e
           | Inr markup \<Rightarrow>
               if getcode response \<noteq> 200 then SystemExit 1
               else
                 (case BeautifulSoup markup of
                    Inl e \<Rightarrow> except_handlers e
                  | Inr soup \<Rightarrow>
                      if \<not> html soup \<or> \<not> head soup \<or> \<not> body soup then SystemExit 1
                      else
                        (case BeautifulSoup markup of
                           Inl e \<Rightarrow> Raises e
                         | Inr soup' \<Rightarrow>
                             (case find_table soup' of
                                None \<Rightarrow> SystemExit 1
                              | Some tbl \<Rightarrow> Returns (extract_rows date tbl))))))"

text \<open>
  The structural failures of a fetched page: the status is not 200, one of the
  top-level elements \<open>html\<close>, \<open>head\<close>, \<open>body\<close> is absent, or no table of the document
  carries the class \<open>data2_s\<close>. \<open>exit_cases\<close> collects what ends in \<open>sys.exit(1)\<close>, given
  what the fetcher did: an instance of \<open>Exception\<close> raised by the fetcher, by
  \<open>response.read()\<close> or by the parser (a status other than 200 is seen before the parser
  runs), or a structural failure of the page.
\<close>

definition structural_failure :: "int \<Rightarrow> document \<Rightarrow> bool" where
  "structural_failure status soup \<longleftrightarrow>
     status \<noteq> 200 \<or> \<not> html soup \<or> \<not> head soup \<or> \<not> body soup \<or>
     (\<forall>t \<in> set (tables soup). ''data2_s'' \<notin> set (classes t))"

definition exit_cases :: "exn + response \<Rightarrow> (string \<Rightarrow> exn + document) \<Rightarrow> bool" where
  "exit_cases fetched BeautifulSoup \<longleftrightarrow>
     (case fetched of
        Inl e \<Rightarrow> is_Exception e
      | Inr r \<Rightarrow>
          (case read r of
             Inl e \<Rightarrow> is_Exception e
           | Inr m \<Rightarrow>
               (case BeautifulSoup m of
                  Inl e \<Rightarrow> getcode r \<noteq> 200 \<or> is_Exception e
                | Inr soup \<Rightarrow> structural_failure (getcode r) soup)))"

section \<open>Facts about stripping\<close>

lemmas float_defs = str2float_def strip_def replace_rparen_def isspace_def py_float_def number_def
  digitpart_def isdigit_def exponent_def scale10_def digits_value_def MISSING_VALUE_def
  float_strip_def float_isspace_def to_ascii_def tolower_def todecimal_def nd_zeros_def

lemma dropWhile_hd_id: "(xs \<noteq> [] \<Longrightarrow> \<not> P (hd xs)) \<Longrightarrow> dropWhile P xs = xs"
  by (cases xs) auto

lemma strip_prefix: "\<exists>zs. dropWhile isspace s = strip s @ zs"
proof -
  have "rev (dropWhile isspace s) =
          takeWhile isspace (rev (dropWhile isspace s)) @ dropWhile isspace (rev (dropWhile isspace s))"
    by simp
  then have "dropWhile isspace s =
          rev (dropWhile isspace (rev (dropWhile isspace s))) @
          rev (takeWhile isspace (rev (dropWhile isspace s)))"
    by (metis rev_append rev_rev_ident)
  then show ?thesis unfolding strip_def by blast
qed

lemma strip_hd: "strip s \<noteq> [] \<Longrightarrow> \<not> isspace (hd (strip s))"
proof -
  assume ne: "strip s \<noteq> []"
  obtain zs where eq: "dropWhile isspace s = strip s @ zs" using strip_prefix by blast
  then have "dropWhile isspace s \<noteq> []" using ne by auto
  then have "\<not> isspace (hd (dropWhile isspace s))" by (rule hd_dropWhile)
  then show ?thesis using eq ne by simp
qed

lemma strip_last: "dropWhile isspace (rev (strip s)) = rev (strip s)"
  by (simp add: strip_def)

lemma strip_idem: "strip (strip s) = strip s"
proof -
  have "dropWhile isspace (strip s) = strip s"
    using strip_hd [of s] by (intro dropWhile_hd_id) simp
  then show ?thesis
    using strip_last [of s] by (simp add: strip_def)
qed

lemma set_strip: "set (strip s) \<subseteq> set s"
proof -
  have "set (strip s) \<subseteq> set (dropWhile isspace s)"
    unfolding strip_def using set_dropWhileD by fastforce
  then show ?thesis using set_dropWhileD by fastforce
qed

lemma replace_rparen_strip: "replace_rparen (strip (replace_rparen s)) = strip (replace_rparen s)"
proof -
  have "\<forall>c \<in> set (strip (replace_rparen s)). c \<noteq> 0x29"
    using set_strip [of "replace_rparen s"] by (auto simp: replace_rparen_def)
  then show ?thesis unfolding replace_rparen_def [of "strip _"] by (simp add: filter_id_conv)
qed

lemma clean_idem: "strip (replace_rparen (strip (replace_rparen s))) = strip (replace_rparen s)"
  by (simp add: replace_rparen_strip strip_idem)

section \<open>Facts about rounding\<close>

lemma floor_log2_eq:
  assumes "0 < a" "2 powi k \<le> a" "a < 2 powi (k + 1)"
  shows "\<lfloor>log 2 a\<rfloor> = k"
proof -
  have "(2::real) powr real_of_int k = 2 powi k"
    by (simp add: powr_real_of_int')
  moreover have "(2::real) powr (real_of_int k + 1) = 2 powi (k + 1)"
    using powr_real_of_int' [of "2::real" "k + 1"] by simp
  ultimately have "2 powr real_of_int k \<le> a \<and> a < 2 powr (real_of_int k + 1)"
    using assms by simp
  then show ?thesis using assms(1) by (simp add: floor_log_eq_powr_iff)
qed

lemma round_half_even_of_int: "round_half_even (of_int m) = m"
  by (simp add: round_half_even_def)

lemma round64_normal:
  assumes x: "x = of_int m * 2 powi (k - 52)"
    and m: "2 ^ 52 \<le> \<bar>m\<bar>" "\<bar>m\<bar> < 2 ^ 53"
    and k: "- 1022 \<le> k" "k \<le> 1023"
  shows "round64 x = Finite x"
proof -
  let ?u = "(2::real) powi (k - 52)"
  have u: "0 < ?u" by simp
  have ax: "\<bar>x\<bar> = of_int \<bar>m\<bar> * ?u" unfolding x by (simp add: abs_mult)
  have "(2::real) ^ 52 \<le> of_int \<bar>m\<bar>" using m(1) by (metis of_int_le_iff of_int_numeral of_int_power)
  then have "2 ^ 52 * ?u \<le> \<bar>x\<bar>" unfolding ax using u by simp
  moreover have "(2::real) ^ 52 * ?u = 2 powi k"
    using power_int_add [of "2::real" 52 "k - 52"] by simp
  ultimately have lo: "2 powi k \<le> \<bar>x\<bar>" by simp
  have "of_int \<bar>m\<bar> < (2::real) ^ 53" using m(2) by (metis of_int_less_iff of_int_numeral of_int_power)
  then have "\<bar>x\<bar> < 2 ^ 53 * ?u" unfolding ax using u by simp
  moreover have "(2::real) ^ 53 * ?u = 2 powi (k + 1)"
    using power_int_add [of "2::real" 53 "k - 52"] by (simp add: add.commute)
  ultimately have hi: "\<bar>x\<bar> < 2 powi (k + 1)" by simp
  have pos: "0 < \<bar>x\<bar>" using lo by (smt (verit) zero_less_power_int)
  then have nz: "x \<noteq> 0" by simp
  have fl: "\<lfloor>log 2 \<bar>x\<bar>\<rfloor> = k" using pos lo hi by (rule floor_log2_eq)
  have e: "max \<lfloor>log 2 \<bar>x\<bar>\<rfloor> (- 1022) = k" using fl k(1) by simp
  have q: "x / ?u = of_int m" unfolding x using u by simp
  have y: "of_int (round_half_even (x / ?u)) * ?u = x"
    unfolding x by (simp add: round_half_even_of_int)
  have "(2::real) powi (k + 1) \<le> 2 powi 1024"
    using k(2) by (intro power_int_increasing) auto
  then have "\<bar>x\<bar> < 2 ^ 1024" using hi by simp
  then show ?thesis
    unfolding round64_def using nz e y by (simp add: Let_def)
qed

lemma round64_1000000: "round64 1000000 = Finite 1000000"
  by (rule round64_normal [where m = "8589934592000000" and k = 19]) simp_all

lemma round64_half: "round64 (1 / 2) = Finite (1 / 2)"
  by (rule round64_normal [where m = "4503599627370496" and k = "- 1"]) simp_all

lemma round64_one: "round64 1 = Finite 1"
  by (rule round64_normal [where m = "4503599627370496" and k = 0]) simp_all

lemma round64_12: "round64 12 = Finite 12"
  by (rule round64_normal [where m = "6755399441055744" and k = 3]) simp_all

lemma round64_neg_half: "round64 (- (1 / 2)) = Finite (- (1 / 2))"
  by (rule round64_normal [where m = "- 4503599627370496" and k = "- 1"]) simp_all

lemma round_half_even_ge: "of_int m \<le> r \<Longrightarrow> m \<le> round_half_even r"
proof -
  assume "of_int m \<le> r"
  then have "m \<le> \<lfloor>r\<rfloor>" by (simp add: le_floor_iff)
  then show ?thesis by (simp add: round_half_even_def Let_def)
qed

lemma round_half_even_le: "r \<le> of_int m \<Longrightarrow> round_half_even r \<le> m"
proof -
  assume a: "r \<le> of_int m"
  then have f: "\<lfloor>r\<rfloor> \<le> m" by (simp add: floor_le_iff)
  show ?thesis
  proof (cases "r - of_int \<lfloor>r\<rfloor> < 1 / 2")
    case True
    then show ?thesis using f by (simp add: round_half_even_def Let_def)
  next
    case False
    then have "of_int \<lfloor>r\<rfloor> < r" by simp
    then have "of_int \<lfloor>r\<rfloor> < (of_int m :: real)" using a by simp
    then have "\<lfloor>r\<rfloor> < m" by (simp only: of_int_less_iff)
    then show ?thesis by (simp add: round_half_even_def Let_def)
  qed
qed



lemma round64_overflow:
  assumes "2 ^ 1024 \<le> \<bar>x\<bar>"
  shows "round64 x = (if 0 < x then PosInf else NegInf)"
proof -
  define e where "e = \<lfloor>log 2 \<bar>x\<bar>\<rfloor>"
  let ?u = "(2::real) powi (e - 52)"
  have pos: "0 < \<bar>x\<bar>" using assms by (smt (verit) zero_less_power)
  then have nz: "x \<noteq> 0" by simp
  have "2 powr real_of_int e \<le> \<bar>x\<bar>"
    using pos floor_log_eq_powr_iff [of "\<bar>x\<bar>" 2 e] by (simp add: e_def)
  then have lo: "2 powi e \<le> \<bar>x\<bar>" by (simp add: powr_real_of_int')
  have "(2::real) powr 1024 \<le> \<bar>x\<bar>" using assms by simp
  then have "1024 \<le> log 2 \<bar>x\<bar>" using pos by (simp add: le_log_iff)
  then have e1024: "1024 \<le> e" unfolding e_def by (simp add: le_floor_iff)
  then have emax: "max e (- 1022) = e" by simp
  have u: "0 < ?u" by simp
  have pw: "(2::real) ^ 52 * ?u = 2 powi e"
    using power_int_add [of "2::real" 52 "e - 52"] by simp
  have big: "2 ^ 52 \<le> \<bar>x / ?u\<bar>"
  proof -
    have "2 ^ 52 * ?u \<le> \<bar>x\<bar>" using lo pw by simp
    then have "2 ^ 52 \<le> \<bar>x\<bar> / ?u" using u by (simp add: pos_le_divide_eq)
    then show ?thesis using u by (simp add: abs_divide)
  qed
  have n: "2 ^ 52 \<le> \<bar>round_half_even (x / ?u)\<bar>"
  proof (cases "0 \<le> x / ?u")
    case True
    then have "of_int (2 ^ 52) \<le> x / ?u" using big by simp
    then have "2 ^ 52 \<le> round_half_even (x / ?u)" by (rule round_half_even_ge)
    then show ?thesis by simp
  next
    case False
    then have "x / ?u \<le> of_int (- (2 ^ 52))" using big by simp
    then have "round_half_even (x / ?u) \<le> - (2 ^ 52)" by (rule round_half_even_le)
    then show ?thesis by simp
  qed
  have "2 ^ 1024 \<le> \<bar>of_int (round_half_even (x / ?u)) * ?u\<bar>"
  proof -
    have "(2::real) ^ 52 \<le> of_int \<bar>round_half_even (x / ?u)\<bar>"
      using n by (metis of_int_le_iff of_int_numeral of_int_power)
    then have "2 ^ 52 * ?u \<le> of_int \<bar>round_half_even (x / ?u)\<bar> * ?u"
      using u by (intro mult_right_mono) auto
    then have "2 powi e \<le> of_int \<bar>round_half_even (x / ?u)\<bar> * ?u"
      unfolding pw .
    moreover have "of_int \<bar>round_half_even (x / ?u)\<bar> * ?u =
        \<bar>of_int (round_half_even (x / ?u)) * ?u\<bar>"
      by (simp add: abs_mult)
    ultimately have "2 powi e \<le> \<bar>of_int (round_half_even (x / ?u)) * ?u\<bar>"
      by (simp only:)
    moreover have "(2::real) powi 1024 \<le> 2 powi e"
      using e1024 by (intro power_int_increasing) auto
    ultimately show ?thesis by simp
  qed
  then show ?thesis
    unfolding round64_def using nz emax by (simp add: Let_def e_def)
qed

lemma round64_zero: "round64 0 = Finite 0"
  by (simp add: round64_def)

lemma two_1024_le_10_400: "(2::real) ^ 1024 \<le> \<bar>10 ^ 400\<bar>"
proof -
  have "(2::real) ^ 1024 \<le> 2 ^ 1200" by (rule power_increasing) simp_all
  also have "\<dots> = (2 ^ 3) ^ 400" by (simp only: power_mult [symmetric]) simp
  also have "\<dots> \<le> 10 ^ 400" by (rule power_mono) simp_all
  finally show ?thesis by simp
qed

lemma round64_10_400: "round64 (10 ^ 400) = PosInf"
  using round64_overflow [OF two_1024_le_10_400] by simp

lemma mj2w_overflow: "mj2w (Finite (2 ^ 1010)) = PosInf"
proof -
  have "(2::real) ^ 1024 \<le> \<bar>2 ^ 1010 * 10 ^ 6\<bar>"
  proof -
    have "(2::real) ^ 1024 = 2 ^ 1010 * 2 ^ 14" by (simp only: power_add [symmetric]) simp
    also have "\<dots> \<le> 2 ^ 1010 * 10 ^ 6" by (intro mult_left_mono) simp_all
    finally show ?thesis by simp
  qed
  then have "round64 (2 ^ 1010 * 10 ^ 6) = PosInf"
    using round64_overflow [of "2 ^ 1010 * 10 ^ 6"] by simp
  then show ?thesis by (simp add: mj2w_def)
qed


section \<open>The value converters\<close>

lemma distinct_WIND_DIRECTION: "distinct (map fst WIND_DIRECTION)"
  by (simp add: WIND_DIRECTION_def)

lemma str2windir_lookup:
  assumes "(name, angle) \<in> set WIND_DIRECTION" and "strip (replace_rparen s) = name"
  shows "str2windir (Some s) = angle"
proof -
  have m: "map_of WIND_DIRECTION name = Some angle"
    using assms(1) distinct_WIND_DIRECTION by (rule_tac map_of_is_SomeI) auto
  have "map_of WIND_DIRECTION [0x23] = None" "map_of WIND_DIRECTION [0xD7] = None"
    by (simp_all add: WIND_DIRECTION_def)
  moreover have "strip (replace_rparen [0x23]) = [0x23]" "strip (replace_rparen [0xD7]) = [0xD7]"
    by (simp_all add: float_defs)
  ultimately have "s \<noteq> [0x23]" "s \<noteq> [0xD7]"
    using m assms(2) by auto
  then show ?thesis using m assms(2) by (simp add: str2windir_def)
qed

lemmas windir_defs = str2windir_def WIND_DIRECTION_def strip_def replace_rparen_def isspace_def
  MISSING_VALUE_def

text \<open>
  C1. \<open>str2float\<close> is a total function of an optional text (every exception of its body is
  caught by its handler, so it returns on every input). It returns 0 on absent input; 0
  when the text, with every \<open>)\<close> removed and then stripped, is \<open>--\<close>; the number that
  \<open>float\<close> reads when the stripped text parses; and the missing value -9999 when it does
  not parse. In particular \<open>str2float("12.3 )")\<close> is the float 12.3, and \<open>str2float\<close> of the
  multiplication sign U+00D7 is -9999. What \<open>float\<close> reads is returned as it is:
  \<open>nan\<close> gives NaN, \<open>-Inf\<close> the negative infinity, the full-width digits of 12.5 the
  float 12.5, and \<open>1e400\<close> the positive infinity.
\<close>

theorem str2float_cases:
  "str2float None = Finite 0
   \<and> (strip (replace_rparen a) = [0x2D, 0x2D] \<longrightarrow> str2float (Some a) = Finite 0)
   \<and> (strip (replace_rparen b) \<noteq> [0x2D, 0x2D] \<and> py_float (strip (replace_rparen b)) = Some v
        \<longrightarrow> str2float (Some b) = v)
   \<and> (strip (replace_rparen c) \<noteq> [0x2D, 0x2D] \<and> py_float (strip (replace_rparen c)) = None
        \<longrightarrow> str2float (Some c) = Finite (- 9999))
   \<and> str2float (Some [0x31, 0x32, 0x2E, 0x33, 0x20, 0x29]) = round64 12.3
   \<and> str2float (Some [0xD7]) = Finite (- 9999)
   \<and> str2float (Some [0x6E, 0x61, 0x6E]) = NaN
   \<and> str2float (Some [0x2D, 0x49, 0x6E, 0x66]) = NegInf
   \<and> str2float (Some [0xFF11, 0xFF12, 0x2E, 0xFF15]) = round64 12.5
   \<and> str2float (Some [0x31, 0x65, 0x34, 0x30, 0x30]) = PosInf"
proof -
  have e1: "str2float (Some [0x31, 0x32, 0x2E, 0x33, 0x20, 0x29]) = round64 12.3"
    by (simp add: float_defs)
  have e2: "str2float (Some [0xD7]) = Finite (- 9999)" by (simp add: float_defs)
  have e3: "str2float (Some [0x6E, 0x61, 0x6E]) = NaN" by (simp add: float_defs)
  have e4: "str2float (Some [0x2D, 0x49, 0x6E, 0x66]) = NegInf" by (simp add: float_defs)
  have e5: "str2float (Some [0xFF11, 0xFF12, 0x2E, 0xFF15]) = round64 12.5"
    by (simp add: float_defs)
  have "str2float (Some [0x31, 0x65, 0x34, 0x30, 0x30]) = round64 (10 ^ 400)"
    by (simp add: float_defs)
  then have e6: "str2float (Some [0x31, 0x65, 0x34, 0x30, 0x30]) = PosInf"
    by (simp only: round64_10_400)
  have g1: "str2float None = Finite 0" by (simp add: str2float_def)
  have g2: "strip (replace_rparen a) = [0x2D, 0x2D] \<longrightarrow> str2float (Some a) = Finite 0"
    by (simp add: str2float_def)
  have g3: "strip (replace_rparen b) \<noteq> [0x2D, 0x2D] \<and> py_float (strip (replace_rparen b)) = Some v
        \<longrightarrow> str2float (Some b) = v"
    by (simp add: str2float_def Let_def)
  have g4: "strip (replace_rparen c) \<noteq> [0x2D, 0x2D] \<and> py_float (strip (replace_rparen c)) = None
        \<longrightarrow> str2float (Some c) = Finite (- 9999)"
    by (simp add: str2float_def MISSING_VALUE_def Let_def)
  show ?thesis
    by (rule conjI [OF g1 conjI [OF g2 conjI [OF g3 conjI [OF g4 conjI [OF e1 conjI [OF e2
        conjI [OF e3 conjI [OF e4 conjI [OF e5 e6]]]]]]]]])
qed

theorem str2float_cases_witness:
  "str2float (Some [0x20, 0x2D, 0x2D, 0x29]) = Finite 0
   \<and> str2float (Some [0x2D, 0x34, 0x2E, 0x35]) = round64 (- 4.5)
   \<and> str2float (Some [0x2F, 0x2F, 0x2F]) = Finite (- 9999)"
proof -
  have h1: "strip (replace_rparen [0x20, 0x2D, 0x2D, 0x29]) = [0x2D, 0x2D]"
    by (simp add: float_defs)
  have h2: "strip (replace_rparen [0x2D, 0x34, 0x2E, 0x35]) \<noteq> [0x2D, 0x2D]
      \<and> py_float (strip (replace_rparen [0x2D, 0x34, 0x2E, 0x35])) = Some (round64 (- 4.5))"
    by (simp add: float_defs)
  have h3: "strip (replace_rparen [0x2F, 0x2F, 0x2F]) \<noteq> [0x2D, 0x2D]
      \<and> py_float (strip (replace_rparen [0x2F, 0x2F, 0x2F])) = None"
    by (simp add: float_defs)
  note t = str2float_cases [of "[0x20, 0x2D, 0x2D, 0x29]" "[0x2D, 0x34, 0x2E, 0x35]"
      "round64 (- 4.5)" "[0x2F, 0x2F, 0x2F]"]
  have r1: "str2float (Some [0x20, 0x2D, 0x2D, 0x29]) = Finite 0"
    using t [THEN conjunct2, THEN conjunct1, THEN mp, OF h1] .
  have r2: "str2float (Some [0x2D, 0x34, 0x2E, 0x35]) = round64 (- 4.5)"
    using t [THEN conjunct2, THEN conjunct2, THEN conjunct1, THEN mp, OF h2] .
  have r3: "str2float (Some [0x2F, 0x2F, 0x2F]) = Finite (- 9999)"
    using t [THEN conjunct2, THEN conjunct2, THEN conjunct2, THEN conjunct1, THEN mp, OF h3] .
  show ?thesis by (rule conjI [OF r1 conjI [OF r2 r3]])
qed

text \<open>
  C2, as the specification states it: \<open>mj2w x\<close> is 0 when \<open>x\<close> is negative and
  \<open>x * 10^6 / 3600\<close> otherwise. NaN is not negative, and \<open>NaN * 10^6 / 3600\<close> is NaN, but
  \<open>mj2w\<close> sends NaN to 0: the test \<open>mj_value >= 0\<close> is false on it.
\<close>

theorem mj2w_nan_counterexample:
  "mj2w NaN = Finite 0 \<and> \<not> lt_zero NaN \<and> fdiv (fmul NaN (Finite (10 ^ 6))) 3600 = NaN"
  by (simp add: mj2w_def)

text \<open>
  C2, amended: \<open>mj2w x\<close> is \<open>x * 10^6 / 3600\<close>, in float arithmetic, when \<open>x >= 0\<close>
  holds, and 0 for every other float, that is for negative \<open>x\<close> and for NaN. So
  \<open>mj2w 1.0 = 1000000 / 3600\<close>, \<open>mj2w (-1.0) = 0\<close>, and the missing value -9999, which is
  negative and has no case of its own, is sent to 0 as well. The product is rounded
  before the division, and overflows to infinity for large \<open>x\<close>, as at \<open>2^1010\<close>.
\<close>

theorem mj2w_cases:
  "(ge_zero x \<longrightarrow> mj2w x = fdiv (fmul x (Finite (10 ^ 6))) 3600)
   \<and> (\<not> ge_zero x \<longrightarrow> mj2w x = Finite 0)
   \<and> (\<not> ge_zero x \<longleftrightarrow> lt_zero x \<or> x = NaN)
   \<and> (0 \<le> a \<longrightarrow> mj2w (Finite a) = fdiv (round64 (a * 10 ^ 6)) 3600)
   \<and> (0 \<le> a \<and> round64 (a * 10 ^ 6) = Finite b \<longrightarrow> mj2w (Finite a) = round64 (b / 3600))
   \<and> mj2w (Finite 1) = round64 (1000000 / 3600)
   \<and> mj2w (Finite (- 1)) = Finite 0
   \<and> mj2w (Finite MISSING_VALUE) = Finite 0
   \<and> mj2w NaN = Finite 0 \<and> mj2w NegInf = Finite 0 \<and> mj2w PosInf = PosInf
   \<and> mj2w (Finite (2 ^ 1010)) = PosInf"
proof -
  have c1: "ge_zero x \<longrightarrow> mj2w x = fdiv (fmul x (Finite (10 ^ 6))) 3600"
    by (simp add: mj2w_def)
  have c2: "\<not> ge_zero x \<longrightarrow> mj2w x = Finite 0" by (simp add: mj2w_def)
  have c3: "\<not> ge_zero x \<longleftrightarrow> lt_zero x \<or> x = NaN" by (cases x) auto
  have c4: "0 \<le> a \<longrightarrow> mj2w (Finite a) = fdiv (round64 (a * 10 ^ 6)) 3600"
    by (simp add: mj2w_def)
  have c5: "0 \<le> a \<and> round64 (a * 10 ^ 6) = Finite b \<longrightarrow> mj2w (Finite a) = round64 (b / 3600)"
    by (simp add: mj2w_def)
  have c6: "mj2w (Finite 1) = round64 (1000000 / 3600)"
    by (simp add: mj2w_def round64_1000000)
  have c7: "mj2w (Finite (- 1)) = Finite 0" by (simp add: mj2w_def)
  have c8: "mj2w (Finite MISSING_VALUE) = Finite 0" by (simp add: mj2w_def MISSING_VALUE_def)
  have c9: "mj2w NaN = Finite 0" by (simp add: mj2w_def)
  have c10: "mj2w NegInf = Finite 0" by (simp add: mj2w_def)
  have c11: "mj2w PosInf = PosInf" by (simp add: mj2w_def)
  have c12: "mj2w (Finite (2 ^ 1010)) = PosInf" by (rule mj2w_overflow)
  show ?thesis
    by (rule conjI [OF c1 conjI [OF c2 conjI [OF c3 conjI [OF c4 conjI [OF c5 conjI [OF c6
        conjI [OF c7 conjI [OF c8 conjI [OF c9 conjI [OF c10 conjI [OF c11 c12]]]]]]]]]]])
qed

theorem mj2w_cases_witness:
  "mj2w (Finite 1) = round64 (1000000 / 3600) \<and> mj2w (Finite (- 2)) = Finite 0
   \<and> mj2w NaN = Finite 0"
proof -
  have g: "ge_zero (Finite 1)" by simp
  have n: "\<not> ge_zero (Finite (- 2))" by simp
  have h: "(0 :: real) \<le> 1 \<and> round64 (1 * 10 ^ 6) = Finite 1000000"
    using round64_1000000 by simp
  have "mj2w (Finite 1) = fdiv (fmul (Finite 1) (Finite (10 ^ 6))) 3600"
    using mj2w_cases [of "Finite 1" 1 1000000, THEN conjunct1, THEN mp, OF g] .
  have r1: "mj2w (Finite 1) = round64 (1000000 / 3600)"
    using mj2w_cases [of "Finite 1" 1 1000000, THEN conjunct2, THEN conjunct2, THEN conjunct2,
        THEN conjunct2, THEN conjunct1, THEN mp, OF h] .
  have r2: "mj2w (Finite (- 2)) = Finite 0"
    using mj2w_cases [of "Finite (- 2)" 1 1000000, THEN conjunct2, THEN conjunct1, THEN mp, OF n] .
  have r3: "mj2w NaN = Finite 0"
    using mj2w_cases [of NaN 1 1000000, THEN conjunct2, THEN conjunct1] by simp
  show ?thesis by (rule conjI [OF r1 conjI [OF r2 r3]])
qed

text \<open>
  C3. Each of the 16 compass points is sent to its multiple of 22.5 degrees, clockwise
  from north (U+5317) at 0 to north-north-west at 337.5, and the calm token (U+9759
  U+7A4F) to 0. Every \<open>)\<close> is removed and the text is stripped before the table is read:
  a text that cleans to a key of the table is sent to the angle of that key, so
  north-east followed by \<open>" )"\<close> is sent to 45.
\<close>

theorem str2windir_table:
  "str2windir (Some [0x5317]) = 0
   \<and> str2windir (Some [0x5317, 0x5317, 0x6771]) = 22.5
   \<and> str2windir (Some [0x5317, 0x6771]) = 45
   \<and> str2windir (Some [0x6771, 0x5317, 0x6771]) = 67.5
   \<and> str2windir (Some [0x6771]) = 90
   \<and> str2windir (Some [0x6771, 0x5357, 0x6771]) = 112.5
   \<and> str2windir (Some [0x5357, 0x6771]) = 135
   \<and> str2windir (Some [0x5357, 0x5357, 0x6771]) = 157.5
   \<and> str2windir (Some [0x5357]) = 180
   \<and> str2windir (Some [0x5357, 0x5357, 0x897F]) = 202.5
   \<and> str2windir (Some [0x5357, 0x897F]) = 225
   \<and> str2windir (Some [0x897F, 0x5357, 0x897F]) = 247.5
   \<and> str2windir (Some [0x897F]) = 270
   \<and> str2windir (Some [0x897F, 0x5317, 0x897F]) = 292.5
   \<and> str2windir (Some [0x5317, 0x897F]) = 315
   \<and> str2windir (Some [0x5317, 0x5317, 0x897F]) = 337.5
   \<and> str2windir (Some [0x9759, 0x7A4F]) = 0
   \<and> ((name, angle) \<in> set WIND_DIRECTION \<and> strip (replace_rparen s) = name
        \<longrightarrow> str2windir (Some s) = angle)
   \<and> str2windir (Some [0x5317, 0x6771, 0x20, 0x29]) = 45"
proof -
  have "(name, angle) \<in> set WIND_DIRECTION \<and> strip (replace_rparen s) = name
        \<longrightarrow> str2windir (Some s) = angle"
    using str2windir_lookup by blast
  moreover have "str2windir (Some [0x5317, 0x6771, 0x20, 0x29]) = 45"
    by (simp add: windir_defs)
  moreover have "str2windir (Some [0x5317]) = 0" by (simp add: windir_defs)
  moreover have "str2windir (Some [0x5317, 0x5317, 0x6771]) = 22.5" by (simp add: windir_defs)
  moreover have "str2windir (Some [0x5317, 0x6771]) = 45" by (simp add: windir_defs)
  moreover have "str2windir (Some [0x6771, 0x5317, 0x6771]) = 67.5" by (simp add: windir_defs)
  moreover have "str2windir (Some [0x6771]) = 90" by (simp add: windir_defs)
  moreover have "str2windir (Some [0x6771, 0x5357, 0x6771]) = 112.5" by (simp add: windir_defs)
  moreover have "str2windir (Some [0x5357, 0x6771]) = 135" by (simp add: windir_defs)
  moreover have "str2windir (Some [0x5357, 0x5357, 0x6771]) = 157.5" by (simp add: windir_defs)
  moreover have "str2windir (Some [0x5357]) = 180" by (simp add: windir_defs)
  moreover have "str2windir (Some [0x5357, 0x5357, 0x897F]) = 202.5" by (simp add: windir_defs)
  moreover have "str2windir (Some [0x5357, 0x897F]) = 225" by (simp add: windir_defs)
  moreover have "str2windir (Some [0x897F, 0x5357, 0x897F]) = 247.5" by (simp add: windir_defs)
  moreover have "str2windir (Some [0x897F]) = 270" by (simp add: windir_defs)
  moreover have "str2windir (Some [0x897F, 0x5317, 0x897F]) = 292.5" by (simp add: windir_defs)
  moreover have "str2windir (Some [0x5317, 0x897F]) = 315" by (simp add: windir_defs)
  moreover have "str2windir (Some [0x5317, 0x5317, 0x897F]) = 337.5" by (simp add: windir_defs)
  moreover have "str2windir (Some [0x9759, 0x7A4F]) = 0" by (simp add: windir_defs)
  ultimately show ?thesis by blast
qed

theorem str2windir_table_witness:
  "([0x5357, 0x897F], 225) \<in> set WIND_DIRECTION
   \<and> strip (replace_rparen [0x20, 0x5357, 0x29, 0x897F, 0x29, 0x20]) = [0x5357, 0x897F]
   \<and> str2windir (Some [0x20, 0x5357, 0x29, 0x897F, 0x29, 0x20]) = 225"
proof -
  have h1: "([0x5357, 0x897F], 225) \<in> set WIND_DIRECTION" by (simp add: WIND_DIRECTION_def)
  have h2: "strip (replace_rparen [0x20, 0x5357, 0x29, 0x897F, 0x29, 0x20]) = [0x5357, 0x897F]"
    by (simp add: float_defs)
  show ?thesis
    using str2windir_table [of "[0x5357, 0x897F]" 225 "[0x20, 0x5357, 0x29, 0x897F, 0x29, 0x20]"] h1 h2
    by simp
qed

text \<open>
  C4, as the specification states it: the calm token is sent to the missing value. The
  table sends it to 0, as the docstring of \<open>str2windir\<close> says, so the statement fails.
\<close>

theorem str2windir_calm_counterexample:
  "str2windir (Some [0x9759, 0x7A4F]) \<noteq> MISSING_VALUE"
  by (simp add: windir_defs)

text \<open>
  C4, amended: \<open>str2windir\<close> returns the missing value -9999 on absent input and on the
  placeholder glyphs \<open>#\<close> and U+00D7; on the calm token it returns 0 degrees.
\<close>

theorem str2windir_missing:
  "str2windir None = - 9999
   \<and> str2windir (Some [0x23]) = - 9999
   \<and> str2windir (Some [0xD7]) = - 9999
   \<and> str2windir (Some [0x9759, 0x7A4F]) = 0"
  by (simp add: windir_defs)

text \<open>
  C5. The specification sends empty text to 0. The code returns 0 on absent input only:
  on the empty string and on strings of whitespace, \<open>float\<close> raises \<open>ValueError\<close> and the
  result is the missing value -9999.
\<close>

theorem str2float_empty_text:
  "str2float (Some []) = Finite (- 9999) \<and> str2float (Some [0x20]) = Finite (- 9999)
   \<and> str2float (Some [0x20, 0x3000, 0x09]) = Finite (- 9999) \<and> str2float None = Finite 0"
  by (simp add: float_defs)

text \<open>
  C10. Both converters remove every \<open>)\<close> of the text, wherever it stands, and strip the
  result before it is parsed or looked up: the result of \<open>str2float\<close> is read off the
  parse of the cleaned text, the result of \<open>str2windir\<close> off the table entry of the
  cleaned text, and the cleaned text has no \<open>)\<close> left. Each converter gives the same
  result on a text and on its cleaned form. So \<open>str2float("1)2")\<close> is 12, although
  \<open>float("1)2")\<close> raises, and north, \<open>)\<close>, east is read as north-east, although the table
  has no such key.
\<close>

theorem converters_remove_every_rparen:
  "str2float (Some s) =
     (if strip (filter (\<lambda>c. c \<noteq> 0x29) s) = [0x2D, 0x2D] then Finite 0
      else (case py_float (strip (filter (\<lambda>c. c \<noteq> 0x29) s)) of
              Some v \<Rightarrow> v
            | None \<Rightarrow> Finite (- 9999)))
   \<and> str2windir (Some s) =
     (case map_of WIND_DIRECTION (strip (filter (\<lambda>c. c \<noteq> 0x29) s)) of
        Some angle \<Rightarrow> angle
      | None \<Rightarrow> - 9999)
   \<and> 0x29 \<notin> set (strip (filter (\<lambda>c. c \<noteq> 0x29) s))
   \<and> str2float (Some s) = str2float (Some (strip (filter (\<lambda>c. c \<noteq> 0x29) s)))
   \<and> str2windir (Some s) = str2windir (Some (strip (filter (\<lambda>c. c \<noteq> 0x29) s)))
   \<and> py_float [0x31, 0x32] = Some (Finite 12)
   \<and> str2float (Some [0x31, 0x29, 0x32]) = Finite 12
   \<and> str2float (Some [0x31, 0x32, 0x29]) = Finite 12
   \<and> py_float [0x31, 0x29, 0x32] = None
   \<and> str2windir (Some [0x5317, 0x29, 0x6771]) = 45
   \<and> map_of WIND_DIRECTION [0x5317, 0x29, 0x6771] = None"
proof -
  have n: "map_of WIND_DIRECTION [0x23] = None" "map_of WIND_DIRECTION [0xD7] = None"
    by (simp_all add: WIND_DIRECTION_def)
  have k: "strip (replace_rparen [0x23]) = [0x23]" "strip (replace_rparen [0xD7]) = [0xD7]"
    by (simp_all add: float_defs)
  have c1: "str2float (Some s) =
     (if strip (filter (\<lambda>c. c \<noteq> 0x29) s) = [0x2D, 0x2D] then Finite 0
      else (case py_float (strip (filter (\<lambda>c. c \<noteq> 0x29) s)) of
              Some v \<Rightarrow> v
            | None \<Rightarrow> Finite (- 9999)))"
    by (simp add: str2float_def replace_rparen_def MISSING_VALUE_def Let_def
        split: option.splits)
  have c2: "str2windir (Some s) =
     (case map_of WIND_DIRECTION (strip (filter (\<lambda>c. c \<noteq> 0x29) s)) of
        Some angle \<Rightarrow> angle
      | None \<Rightarrow> - 9999)"
    using n k
    by (auto simp: str2windir_def replace_rparen_def MISSING_VALUE_def split: option.splits)
  have "0x29 \<notin> set (replace_rparen s)" by (simp add: replace_rparen_def)
  then have "0x29 \<notin> set (strip (replace_rparen s))"
    using set_strip [of "replace_rparen s"] by blast
  then have c3: "0x29 \<notin> set (strip (filter (\<lambda>c. c \<noteq> 0x29) s))"
    by (simp add: replace_rparen_def)
  have "str2float (Some s) = str2float (Some (strip (replace_rparen s)))"
    by (simp add: str2float_def clean_idem)
  then have c4: "str2float (Some s) = str2float (Some (strip (filter (\<lambda>c. c \<noteq> 0x29) s)))"
    by (simp add: replace_rparen_def)
  have "str2windir (Some s) = str2windir (Some (strip (replace_rparen s)))"
    using n k by (auto simp: str2windir_def clean_idem)
  then have c5: "str2windir (Some s) = str2windir (Some (strip (filter (\<lambda>c. c \<noteq> 0x29) s)))"
    by (simp add: replace_rparen_def)
  have c6: "py_float [0x31, 0x32] = Some (Finite 12)"
    by (simp add: float_defs round64_12)
  have c7: "str2float (Some [0x31, 0x29, 0x32]) = Finite 12"
    by (simp add: float_defs round64_12)
  have c8: "str2float (Some [0x31, 0x32, 0x29]) = Finite 12"
    by (simp add: float_defs round64_12)
  have c9: "py_float [0x31, 0x29, 0x32] = None" by (simp add: float_defs)
  have c10: "str2windir (Some [0x5317, 0x29, 0x6771]) = 45" by (simp add: windir_defs)
  have c11: "map_of WIND_DIRECTION [0x5317, 0x29, 0x6771] = None"
    by (simp add: WIND_DIRECTION_def)
  show ?thesis
    by (rule conjI [OF c1 conjI [OF c2 conjI [OF c3 conjI [OF c4 conjI [OF c5 conjI [OF c6
        conjI [OF c7 conjI [OF c8 conjI [OF c9 conjI [OF c10 c11]]]]]]]]]])
qed


section \<open>The row extractor\<close>

lemma rows_loop_eq:
  "rows_loop date rows acc = acc @ map (data_row date) (filter (\<lambda>tds. 14 \<le> length tds) rows)"
  by (induction rows arbitrary: acc) (auto simp: not_less)

lemma length_data_row: "length (data_row date tds) = 15"
  by (simp add: data_row_def)

lemma length_filter_compl:
  "length (filter P xs) = length xs - length (filter (\<lambda>x. \<not> P x) xs)"
  using sum_length_filter_compl [of P xs] by simp

text \<open>
  C6. On a table whose rows are two header rows followed by the data rows \<open>rows\<close>, the
  extractor returns one record for each data row of at least 14 cells, in the order of
  the rows: their number is the number of data rows minus the number of rows of fewer
  than 14 cells. A row is converted whole or dropped: every record has all 15 fields.
\<close>

theorem extract_rows_count:
  "extract_rows date \<lparr>classes = cs, trs = h1 # h2 # rows\<rparr> =
     map (data_row date) (filter (\<lambda>tds. 14 \<le> length tds) rows)
   \<and> length (extract_rows date \<lparr>classes = cs, trs = h1 # h2 # rows\<rparr>) =
       length rows - length (filter (\<lambda>tds. length tds < 14) rows)
   \<and> list_all (\<lambda>r. length r = 15) (extract_rows date \<lparr>classes = cs, trs = h1 # h2 # rows\<rparr>)"
proof -
  have e: "extract_rows date \<lparr>classes = cs, trs = h1 # h2 # rows\<rparr> =
     map (data_row date) (filter (\<lambda>tds. 14 \<le> length tds) rows)"
    by (simp add: extract_rows_def rows_loop_eq)
  have "length (filter (\<lambda>tds. 14 \<le> length tds) rows) =
        length rows - length (filter (\<lambda>tds. \<not> 14 \<le> length tds) rows)"
    by (rule length_filter_compl)
  then have l: "length (filter (\<lambda>tds. 14 \<le> length tds) rows) =
        length rows - length (filter (\<lambda>tds. length tds < 14) rows)"
    by (simp add: not_le)
  show ?thesis using e l by (simp add: list_all_iff length_data_row)
qed

lemma data_row_example:
  "data_row \<lparr>year = 2000, month = 1, day = 1\<rparr>
     [Some [0x31], Some [0x31, 0x30, 0x31, 0x33, 0x2E, 0x32], Some [0x31, 0x30, 0x31, 0x35],
      Some [0x2D, 0x2D], Some [0x35, 0x2E, 0x34], Some [0x2D, 0x31, 0x2E, 0x32],
      Some [0x35, 0x2E, 0x36], Some [0x36, 0x32], Some [0x32, 0x2E, 0x31, 0x20, 0x29],
      Some [0x5317, 0x6771], None, Some [0x31, 0x2E, 0x35], Some [0xD7],
      Some [0x2F, 0x2F, 0x2F :: nat]] =
   [PyDate \<lparr>year = 2000, month = 1, day = 1\<rparr>, PyStr [0x31], PyFloat (round64 1013.2),
       PyFloat (round64 1015), PyFloat (Finite 0), PyFloat (round64 5.4),
       PyFloat (round64 (- 1.2)), PyFloat (round64 5.6), PyFloat (round64 62),
       PyFloat (round64 2.1), PyFloat (Finite 45), PyFloat (Finite 0),
       PyFloat (mj2w (round64 1.5)), PyFloat (Finite (- 9999)), PyFloat (Finite (- 9999))]"
  by (simp add: data_row_def string_of_def float_defs str2windir_def WIND_DIRECTION_def)

text \<open>
  C7. A record built from a kept row has exactly 15 fields, in this order: the date, the
  text of cell 0 as it is (\<open>string_of\<close> converts nothing), \<open>str2float\<close> of the cells 1
  to 8, \<open>str2windir\<close> of cell 9, \<open>str2float\<close> of cell 10, \<open>mj2w\<close> of \<open>str2float\<close> of
  cell 11, and \<open>str2float\<close> of the cells 12 and 13. Every record the extractor returns
  is built this way from a row of at least 14 cells.
\<close>

theorem data_row_fields:
  "(14 \<le> length tds \<longrightarrow>
      extract_rows date \<lparr>classes = cs, trs = [h1, h2, tds]\<rparr> =
        [[PyDate date, string_of (tds ! 0),
          PyFloat (str2float (tds ! 1)), PyFloat (str2float (tds ! 2)),
          PyFloat (str2float (tds ! 3)), PyFloat (str2float (tds ! 4)),
          PyFloat (str2float (tds ! 5)), PyFloat (str2float (tds ! 6)),
          PyFloat (str2float (tds ! 7)), PyFloat (str2float (tds ! 8)),
          PyFloat (Finite (str2windir (tds ! 9))), PyFloat (str2float (tds ! 10)),
          PyFloat (mj2w (str2float (tds ! 11))),
          PyFloat (str2float (tds ! 12)), PyFloat (str2float (tds ! 13))]])
   \<and> (r \<in> set (extract_rows date tbl) \<longrightarrow>
        length r = 15
        \<and> (\<exists>tds \<in> set (drop 2 (trs tbl)). 14 \<le> length tds
             \<and> r = [PyDate date, string_of (tds ! 0),
                  PyFloat (str2float (tds ! 1)), PyFloat (str2float (tds ! 2)),
                  PyFloat (str2float (tds ! 3)), PyFloat (str2float (tds ! 4)),
                  PyFloat (str2float (tds ! 5)), PyFloat (str2float (tds ! 6)),
                  PyFloat (str2float (tds ! 7)), PyFloat (str2float (tds ! 8)),
                  PyFloat (Finite (str2windir (tds ! 9))), PyFloat (str2float (tds ! 10)),
                  PyFloat (mj2w (str2float (tds ! 11))),
                  PyFloat (str2float (tds ! 12)), PyFloat (str2float (tds ! 13))]))
   \<and> string_of None = PyNone \<and> string_of (Some s) = PyStr s"
  by (auto simp: extract_rows_def rows_loop_eq data_row_def string_of_def)



theorem data_row_fields_witness:
  "extract_rows \<lparr>year = 2000, month = 1, day = 1\<rparr>
       \<lparr>classes = [''data2_s''], trs = [[], [],
         [Some [0x31], Some [0x31, 0x30, 0x31, 0x33, 0x2E, 0x32], Some [0x31, 0x30, 0x31, 0x35],
      Some [0x2D, 0x2D], Some [0x35, 0x2E, 0x34], Some [0x2D, 0x31, 0x2E, 0x32],
      Some [0x35, 0x2E, 0x36], Some [0x36, 0x32], Some [0x32, 0x2E, 0x31, 0x20, 0x29],
      Some [0x5317, 0x6771], None, Some [0x31, 0x2E, 0x35], Some [0xD7],
      Some [0x2F, 0x2F, 0x2F :: nat]]]\<rparr> =
     [[PyDate \<lparr>year = 2000, month = 1, day = 1\<rparr>, PyStr [0x31], PyFloat (round64 1013.2),
       PyFloat (round64 1015), PyFloat (Finite 0), PyFloat (round64 5.4),
       PyFloat (round64 (- 1.2)), PyFloat (round64 5.6), PyFloat (round64 62),
       PyFloat (round64 2.1), PyFloat (Finite 45), PyFloat (Finite 0),
       PyFloat (mj2w (round64 1.5)), PyFloat (Finite (- 9999)), PyFloat (Finite (- 9999))]]
   \<and> length [PyDate \<lparr>year = 2000, month = 1, day = 1\<rparr>, PyStr [0x31], PyFloat (round64 1013.2),
       PyFloat (round64 1015), PyFloat (Finite 0), PyFloat (round64 5.4),
       PyFloat (round64 (- 1.2)), PyFloat (round64 5.6), PyFloat (round64 62),
       PyFloat (round64 2.1), PyFloat (Finite 45), PyFloat (Finite 0),
       PyFloat (mj2w (round64 1.5)), PyFloat (Finite (- 9999)), PyFloat (Finite (- 9999))] = 15"
proof -
  let ?d = "\<lparr>year = 2000, month = 1, day = 1\<rparr>"
  let ?tds = "[Some [0x31], Some [0x31, 0x30, 0x31, 0x33, 0x2E, 0x32], Some [0x31, 0x30, 0x31, 0x35],
      Some [0x2D, 0x2D], Some [0x35, 0x2E, 0x34], Some [0x2D, 0x31, 0x2E, 0x32],
      Some [0x35, 0x2E, 0x36], Some [0x36, 0x32], Some [0x32, 0x2E, 0x31, 0x20, 0x29],
      Some [0x5317, 0x6771], None, Some [0x31, 0x2E, 0x35], Some [0xD7],
      Some [0x2F, 0x2F, 0x2F :: nat]]"
  let ?tbl = "\<lparr>classes = [''data2_s''], trs = [[], [], ?tds]\<rparr>"
  let ?r = "[PyDate \<lparr>year = 2000, month = 1, day = 1\<rparr>, PyStr [0x31], PyFloat (round64 1013.2),
       PyFloat (round64 1015), PyFloat (Finite 0), PyFloat (round64 5.4),
       PyFloat (round64 (- 1.2)), PyFloat (round64 5.6), PyFloat (round64 62),
       PyFloat (round64 2.1), PyFloat (Finite 45), PyFloat (Finite 0),
       PyFloat (mj2w (round64 1.5)), PyFloat (Finite (- 9999)), PyFloat (Finite (- 9999))]"
  have h: "14 \<le> length ?tds" by simp
  note t = data_row_fields [of ?tds ?d "[''data2_s'']" "[]" "[]" ?r ?tbl]
  have "extract_rows ?d ?tbl = [data_row ?d ?tds]"
    using t [THEN conjunct1, THEN mp, OF h] by (simp only: data_row_def)
  then have e: "extract_rows ?d ?tbl = [?r]"
    by (simp only: data_row_example)
  then have m: "?r \<in> set (extract_rows ?d ?tbl)" by simp
  have l: "length ?r = 15"
    using t [THEN conjunct2, THEN conjunct1, THEN mp, OF m] by (rule conjunct1)
  show ?thesis by (rule conjI [OF e l])
qed

section \<open>The retrying fetcher\<close>

declare fetch_loop.simps [simp del]

lemma sleep_returns_delay:
  "sleep_returns sleep bf j \<Longrightarrow> delay bf j = Inr (backoff bf j) \<and> sleep j (backoff bf j) = None"
  by (simp add: sleep_returns_def delay_def backoff_def)

lemma fetch_loop_prefix:
  assumes "i \<le> k" "int k \<le> n"
    and "\<forall>j. i \<le> j \<and> j < k \<longrightarrow>
           urlopen j = Inl URLError \<and> (int j < n - 1 \<longrightarrow> sleep_returns sleep bf j)"
  shows "fetch_loop urlopen sleep n bf i =
     (fst (fetch_loop urlopen sleep n bf k),
      concat (map (\<lambda>j. Attempt j # (if int j < n - 1 then [Sleep (backoff bf j)] else []))
        [i..<k]) @ snd (fetch_loop urlopen sleep n bf k))"
  using assms
proof (induction "k - i" arbitrary: i)
  case 0
  then have "i = k" by simp
  then show ?case by simp
next
  case (Suc d)
  then have ik: "i < k" by simp
  then have lt: "int i < n" using Suc.prems(2) by simp
  have u: "urlopen i = Inl URLError" using Suc.prems(3) ik by simp
  have ih: "fetch_loop urlopen sleep n bf (Suc i) =
     (fst (fetch_loop urlopen sleep n bf k),
      concat (map (\<lambda>j. Attempt j # (if int j < n - 1 then [Sleep (backoff bf j)] else []))
        [Suc i..<k]) @ snd (fetch_loop urlopen sleep n bf k))"
    using Suc.hyps(1) [of "Suc i"] Suc.hyps(2) Suc.prems ik by simp
  have up: "[i..<k] = i # [Suc i..<k]" using ik by (rule upt_conv_Cons)
  show ?case
  proof (cases "int i < n - 1")
    case True
    then have "sleep_returns sleep bf i" using Suc.prems(3) ik by simp
    then have "delay bf i = Inr (backoff bf i)" "sleep i (backoff bf i) = None"
      using sleep_returns_delay by blast+
    then show ?thesis
      using lt u True ih up by (subst fetch_loop.simps) simp
  next
    case False
    then show ?thesis
      using lt u ih up by (subst fetch_loop.simps) simp
  qed
qed

lemma fetch_loop_end: "\<not> int i < n \<Longrightarrow> fetch_loop urlopen sleep n bf i = (Inl Exception, [])"
  by (subst fetch_loop.simps) simp

lemma fetch_loop_response:
  "int k < n \<Longrightarrow> urlopen k = Inr r \<Longrightarrow> fetch_loop urlopen sleep n bf k = (Inr r, [Attempt k])"
  by (subst fetch_loop.simps) simp

lemma fetch_loop_other:
  "int k < n \<Longrightarrow> urlopen k = Inl e \<Longrightarrow> e \<noteq> URLError \<Longrightarrow>
   fetch_loop urlopen sleep n bf k = (Inl e, [Attempt k])"
  by (subst fetch_loop.simps) simp

lemma fetch_loop_sleep_raises:
  "int k < n - 1 \<Longrightarrow> urlopen k = Inl URLError \<Longrightarrow> \<not> sleep_returns sleep bf k \<Longrightarrow>
   fst (fetch_loop urlopen sleep n bf k) = Inl (sleep_error sleep bf k)
   \<and> attempts (snd (fetch_loop urlopen sleep n bf k)) = [k]"
  by (subst fetch_loop.simps, subst (2) fetch_loop.simps)
    (auto simp: sleep_returns_def sleep_error_def delay_def backoff_def attempts_def
      split: option.splits)


lemma attempts_simps:
  "attempts [] = []" "attempts (Attempt i # evs) = i # attempts evs"
  "attempts (Sleep d # evs) = attempts evs" "attempts (xs @ ys) = attempts xs @ attempts ys"
  by (simp_all add: attempts_def)

lemma sleeps_simps:
  "sleeps [] = []" "sleeps (Attempt i # evs) = sleeps evs"
  "sleeps (Sleep d # evs) = d # sleeps evs" "sleeps (xs @ ys) = sleeps xs @ sleeps ys"
  by (simp_all add: sleeps_def)

lemma fetch_loop_attempts_bound:
  "length (attempts (snd (fetch_loop urlopen sleep n bf i))) \<le> nat n - i"
proof (induction urlopen sleep n bf i rule: fetch_loop.induct)
  case (1 urlopen sleep n bf i)
  show ?case
  proof (cases "int i < n")
    case False
    then show ?thesis by (simp add: fetch_loop_end attempts_simps)
  next
    case lt: True
    then have pos: "Suc 0 \<le> nat n - i" by simp
    show ?thesis
    proof (cases "urlopen i")
      case (Inr r)
      then show ?thesis using lt pos by (simp add: fetch_loop_response attempts_simps)
    next
      case (Inl e)
      show ?thesis
      proof (cases "e = URLError")
        case False
        then show ?thesis using lt pos Inl by (simp add: fetch_loop_other attempts_simps)
      next
        case u: True
        show ?thesis
        proof (cases "int i < n - 1")
          case last: False
          have ih: "length (attempts (snd (fetch_loop urlopen sleep n bf (Suc i)))) \<le> nat n - Suc i"
            using "1.IH"(2) [OF lt Inl u last] .
          have "fetch_loop urlopen sleep n bf i =
              (fst (fetch_loop urlopen sleep n bf (Suc i)),
               Attempt i # snd (fetch_loop urlopen sleep n bf (Suc i)))"
            using lt Inl u last by (subst fetch_loop.simps) (simp add: case_prod_beta)
          then show ?thesis using ih lt by (simp add: attempts_simps)
        next
          case more: True
          show ?thesis
          proof (cases "delay bf i")
            case dl: (Inl err)
            have "fetch_loop urlopen sleep n bf i = (Inl err, [Attempt i])"
              using lt Inl u more dl by (subst fetch_loop.simps) simp
            then show ?thesis using pos by (simp add: attempts_simps)
          next
            case dr: (Inr d)
            show ?thesis
            proof (cases "sleep i d")
              case (Some err)
              have "fetch_loop urlopen sleep n bf i = (Inl err, [Attempt i, Sleep d])"
                using lt Inl u more dr Some by (subst fetch_loop.simps) simp
              then show ?thesis using pos by (simp add: attempts_simps)
            next
              case None
              have ih: "length (attempts (snd (fetch_loop urlopen sleep n bf (Suc i)))) \<le> nat n - Suc i"
                using "1.IH"(1) [OF lt Inl u more dr None] .
              have "fetch_loop urlopen sleep n bf i =
                  (fst (fetch_loop urlopen sleep n bf (Suc i)),
                   Attempt i # Sleep d # snd (fetch_loop urlopen sleep n bf (Suc i)))"
                using lt Inl u more dr None by (subst fetch_loop.simps) (simp add: case_prod_beta)
              then show ?thesis using ih lt by (simp add: attempts_simps)
            qed
          qed
        qed
      qed
    qed
  qed
qed

lemma attempts_prefix:
  "attempts (concat (map (\<lambda>j. Attempt j # (if P j then [Sleep (f j)] else [])) xs)) = xs"
  by (induction xs) (simp_all add: attempts_simps)

lemma sleeps_prefix:
  "sleeps (concat (map (\<lambda>j. Attempt j # (if P j then [Sleep (f j)] else [])) xs)) =
     map f (filter P xs)"
  by (induction xs) (simp_all add: sleeps_simps)

lemma filter_upt_less: "filter (\<lambda>j. int j < n - 1) [0..<nat n] = [0..<nat n - 1]"
proof -
  have c: "(\<lambda>j. int j < n - 1) = (\<lambda>j. j < nat (n - 1))" by auto
  have "filter (\<lambda>j. j < a) [0..<m] = [0..<min m a]" for m a :: nat
  proof (induction m)
    case 0
    show ?case by simp
  next
    case (Suc m)
    show ?case
    proof (cases "m < a")
      case True
      then show ?thesis using Suc.IH by (simp add: min_def)
    next
      case False
      then have "min m a = a" "min (Suc m) a = a" by simp_all
      then show ?thesis using Suc.IH False by simp
    qed
  qed
  from this [of "nat (n - 1)" "nat n"] have "filter (\<lambda>j. j < nat (n - 1)) [0..<nat n] = [0..<nat (n - 1)]"
    by (simp add: min_def)
  moreover have "nat (n - 1) = nat n - 1" by simp
  ultimately show ?thesis using c by simp
qed

lemma filter_upt_all: "int k < n \<Longrightarrow> filter (\<lambda>j. int j < n - 1) [0..<k] = [0..<k]"
  by (simp add: filter_id_conv)

lemma fetch_run:
  assumes "int k \<le> n"
    and "\<forall>j<k. urlopen j = Inl URLError \<and> (int j < n - 1 \<longrightarrow> sleep_returns sleep bf j)"
  shows "fst (fetch_url_with_retry urlopen sleep n bf) = fst (fetch_loop urlopen sleep n bf k)"
    and "attempts (snd (fetch_url_with_retry urlopen sleep n bf)) =
           [0..<k] @ attempts (snd (fetch_loop urlopen sleep n bf k))"
    and "sleeps (snd (fetch_url_with_retry urlopen sleep n bf)) =
           map (backoff bf) (filter (\<lambda>j. int j < n - 1) [0..<k]) @
           sleeps (snd (fetch_loop urlopen sleep n bf k))"
proof -
  have "fetch_loop urlopen sleep n bf 0 =
     (fst (fetch_loop urlopen sleep n bf k),
      concat (map (\<lambda>j. Attempt j # (if int j < n - 1 then [Sleep (backoff bf j)] else []))
        [0..<k]) @ snd (fetch_loop urlopen sleep n bf k))"
    using assms by (intro fetch_loop_prefix) auto
  then show "fst (fetch_url_with_retry urlopen sleep n bf) = fst (fetch_loop urlopen sleep n bf k)"
    and "attempts (snd (fetch_url_with_retry urlopen sleep n bf)) =
           [0..<k] @ attempts (snd (fetch_loop urlopen sleep n bf k))"
    and "sleeps (snd (fetch_url_with_retry urlopen sleep n bf)) =
           map (backoff bf) (filter (\<lambda>j. int j < n - 1) [0..<k]) @
           sleeps (snd (fetch_loop urlopen sleep n bf k))"
    by (simp_all add: fetch_url_with_retry_def attempts_simps sleeps_simps attempts_prefix
        sleeps_prefix)
qed

lemma fetch_first_response:
  assumes "\<not> (\<forall>j. int j < n \<longrightarrow> urlopen j = Inl URLError)"
  shows "\<exists>k. int k < n \<and> urlopen k \<noteq> Inl URLError \<and> (\<forall>j<k. urlopen j = Inl URLError)"
proof -
  let ?Q = "\<lambda>j. int j < n \<and> urlopen j \<noteq> Inl URLError"
  have ex: "\<exists>j. ?Q j" using assms by blast
  define k where "k = (LEAST j. ?Q j)"
  have q: "?Q k" unfolding k_def using ex by (rule LeastI_ex)
  have m: "\<not> ?Q j" if "j < k" for j using that unfolding k_def by (rule not_less_Least)
  have "\<forall>j<k. urlopen j = Inl URLError"
  proof (intro allI impI)
    fix j assume "j < k"
    then have "\<not> ?Q j" "int j < n" using m q by auto
    then show "urlopen j = Inl URLError" by simp
  qed
  then show ?thesis using q by auto
qed

lemma fetch_success:
  assumes "int k < n" "urlopen k = Inr r"
    and "\<forall>j<k. urlopen j = Inl URLError \<and> sleep_returns sleep bf j"
  shows "fetch_url_with_retry urlopen sleep n bf =
           (Inr r, concat (map (\<lambda>j. [Attempt j, Sleep (backoff bf j)]) [0..<k]) @ [Attempt k])"
proof -
  have "fetch_loop urlopen sleep n bf 0 =
     (fst (fetch_loop urlopen sleep n bf k),
      concat (map (\<lambda>j. Attempt j # (if int j < n - 1 then [Sleep (backoff bf j)] else []))
        [0..<k]) @ snd (fetch_loop urlopen sleep n bf k))"
    using assms by (intro fetch_loop_prefix) auto
  moreover have "map (\<lambda>j. Attempt j # (if int j < n - 1 then [Sleep (backoff bf j)] else [])) [0..<k] =
      map (\<lambda>j. [Attempt j, Sleep (backoff bf j)]) [0..<k]"
    using assms(1) by (intro map_cong) auto
  ultimately show ?thesis
    using fetch_loop_response [where k = k and n = n and urlopen = urlopen and r = r
        and sleep = sleep and bf = bf] assms(1,2)
    by (simp add: fetch_url_with_retry_def)
qed

lemma fetch_other:
  assumes "int k < n" "urlopen k = Inl e" "e \<noteq> URLError"
    and "\<forall>j<k. urlopen j = Inl URLError \<and> sleep_returns sleep bf j"
  shows "fetch_url_with_retry urlopen sleep n bf =
           (Inl e, concat (map (\<lambda>j. [Attempt j, Sleep (backoff bf j)]) [0..<k]) @ [Attempt k])"
proof -
  have "fetch_loop urlopen sleep n bf 0 =
     (fst (fetch_loop urlopen sleep n bf k),
      concat (map (\<lambda>j. Attempt j # (if int j < n - 1 then [Sleep (backoff bf j)] else []))
        [0..<k]) @ snd (fetch_loop urlopen sleep n bf k))"
    using assms by (intro fetch_loop_prefix) auto
  moreover have "map (\<lambda>j. Attempt j # (if int j < n - 1 then [Sleep (backoff bf j)] else [])) [0..<k] =
      map (\<lambda>j. [Attempt j, Sleep (backoff bf j)]) [0..<k]"
    using assms(1) by (intro map_cong) auto
  ultimately show ?thesis
    using fetch_loop_other [where k = k and n = n and urlopen = urlopen and e = e
        and sleep = sleep and bf = bf] assms(1,2,3)
    by (simp add: fetch_url_with_retry_def)
qed

lemma fetch_all_fail:
  assumes "\<forall>j. int j < n \<longrightarrow> urlopen j = Inl URLError"
    and "\<forall>j. int j < n - 1 \<longrightarrow> sleep_returns sleep bf j"
  shows "fetch_url_with_retry urlopen sleep n bf =
           (Inl Exception,
            concat (map (\<lambda>j. Attempt j # (if int j < n - 1 then [Sleep (backoff bf j)] else []))
              [0..<nat n]))"
proof (cases "0 \<le> n")
  case True
  have "fetch_loop urlopen sleep n bf 0 =
     (fst (fetch_loop urlopen sleep n bf (nat n)),
      concat (map (\<lambda>j. Attempt j # (if int j < n - 1 then [Sleep (backoff bf j)] else []))
        [0..<nat n]) @ snd (fetch_loop urlopen sleep n bf (nat n)))"
    using assms True by (intro fetch_loop_prefix) auto
  moreover have "fetch_loop urlopen sleep n bf (nat n) = (Inl Exception, [])"
    by (rule fetch_loop_end) simp
  ultimately show ?thesis by (simp add: fetch_url_with_retry_def)
next
  case False
  then have "fetch_loop urlopen sleep n bf 0 = (Inl Exception, [])"
    by (intro fetch_loop_end) simp
  then show ?thesis using False by (simp add: fetch_url_with_retry_def)
qed

lemma fetch_sleep_raises:
  assumes "int k < n - 1" "\<forall>j\<le>k. urlopen j = Inl URLError"
    and "\<forall>j<k. sleep_returns sleep bf j" "\<not> sleep_returns sleep bf k"
  shows "fst (fetch_url_with_retry urlopen sleep n bf) = Inl (sleep_error sleep bf k)"
    and "attempts (snd (fetch_url_with_retry urlopen sleep n bf)) = [0..<Suc k]"
proof -
  have p: "\<forall>j<k. urlopen j = Inl URLError \<and> (int j < n - 1 \<longrightarrow> sleep_returns sleep bf j)"
    using assms(2,3) by simp
  have k: "int k \<le> n" using assms(1) by simp
  have u: "urlopen k = Inl URLError" using assms(2) by simp
  note s = fetch_loop_sleep_raises [where k = k and n = n and urlopen = urlopen
      and sleep = sleep and bf = bf, OF assms(1) u assms(4)]
  show "fst (fetch_url_with_retry urlopen sleep n bf) = Inl (sleep_error sleep bf k)"
    using fetch_run(1) [OF k p] s by simp
  show "attempts (snd (fetch_url_with_retry urlopen sleep n bf)) = [0..<Suc k]"
    using fetch_run(2) [OF k p] s by simp
qed

lemma backoff_finite: "backoff (Finite a) j = round64 (a * 2 ^ j)"
  by (simp add: backoff_def)

lemma backoff_default:
  "backoff BACKOFF_FACTOR 0 = Finite (1 / 2)" "backoff BACKOFF_FACTOR 1 = Finite 1"
  by (simp_all add: backoff_def BACKOFF_FACTOR_def round64_half round64_one)

text \<open>
  C9, as the specification states it: the fetcher returns the response of the first
  successful attempt, sleeps after every failed attempt but the last, and raises if and
  only if all \<open>max_retries\<close> attempts fail. An attempt that fails with an exception other
  than \<open>URLError\<close> ends the call at once: one attempt, no sleep, and the exception is
  raised although the next attempt would have succeeded. And with a negative
  \<open>backoff_factor\<close> the first sleep raises \<open>ValueError\<close>, after one failed attempt.
\<close>

theorem fetch_url_with_retry_counterexample:
  "fetch_url_with_retry
     (\<lambda>i :: nat. if i = 0 then Inl (OtherException ''TimeoutError'') else Inr (200 :: int))
     (\<lambda>i d. None) 3 (Finite (1 / 2)) =
     (Inl (OtherException ''TimeoutError''), [Attempt 0])
   \<and> fetch_url_with_retry
     (\<lambda>i :: nat. if i = 0 then Inl URLError else Inr (200 :: int))
     (\<lambda>i d. if lt_zero d then Some ValueError else None) 3 (Finite (- (1 / 2))) =
     (Inl ValueError, [Attempt 0, Sleep (Finite (- (1 / 2)))])"
proof -
  have d: "delay (Finite (- (1 / 2))) 0 = Inr (Finite (- (1 / 2)))"
    using round64_neg_half by (simp add: delay_def)
  have a: "fetch_url_with_retry
     (\<lambda>i :: nat. if i = 0 then Inl (OtherException ''TimeoutError'') else Inr (200 :: int))
     (\<lambda>i d. None) 3 (Finite (1 / 2)) =
     (Inl (OtherException ''TimeoutError''), [Attempt 0])"
    unfolding fetch_url_with_retry_def by (subst fetch_loop.simps) simp
  have b: "fetch_url_with_retry
     (\<lambda>i :: nat. if i = 0 then Inl URLError else Inr (200 :: int))
     (\<lambda>i d. if lt_zero d then Some ValueError else None) 3 (Finite (- (1 / 2))) =
     (Inl ValueError, [Attempt 0, Sleep (Finite (- (1 / 2)))])"
    unfolding fetch_url_with_retry_def by (subst fetch_loop.simps) (simp add: d)
  show ?thesis by (rule conjI [OF a b])
qed

text \<open>
  C9, amended. \<open>fetch_url_with_retry\<close> makes at most \<open>max_retries\<close> attempts (3 by
  default). As long as the failed attempts raise \<open>URLError\<close> and the sleeps return: when
  attempt \<open>k\<close> is the first that succeeds, it returns that response after the attempts 0
  to \<open>k\<close>, having slept \<open>backoff_factor * 2^j\<close> after each failed attempt \<open>j\<close>; when every
  attempt fails, it raises \<open>Exception\<close> after \<open>max_retries\<close> attempts and a sleep of
  \<open>backoff_factor * 2^j\<close> after each failed attempt but the last; and it raises if and only
  if all the attempts fail. An attempt that raises another exception ends the call at
  once with that exception, and so does a sleep that raises. The delay is computed in
  float arithmetic and doubles from one attempt to the next: 0.5 and 1 by default.
\<close>

theorem fetch_url_with_retry_spec:
  "length (attempts (snd (fetch_url_with_retry urlopen sleep n bf))) \<le> nat n
   \<and> (int k < n \<and> urlopen k = Inr r
        \<and> (\<forall>j<k. urlopen j = Inl URLError \<and> sleep_returns sleep bf j) \<longrightarrow>
        fetch_url_with_retry urlopen sleep n bf =
          (Inr r, concat (map (\<lambda>j. [Attempt j, Sleep (backoff bf j)]) [0..<k]) @ [Attempt k])
        \<and> attempts (snd (fetch_url_with_retry urlopen sleep n bf)) = [0..<Suc k]
        \<and> sleeps (snd (fetch_url_with_retry urlopen sleep n bf)) = map (backoff bf) [0..<k])
   \<and> ((\<forall>j. int j < n \<longrightarrow> urlopen j = Inl URLError)
        \<and> (\<forall>j. int j < n - 1 \<longrightarrow> sleep_returns sleep bf j) \<longrightarrow>
        fetch_url_with_retry urlopen sleep n bf =
          (Inl Exception,
           concat (map (\<lambda>j. Attempt j # (if int j < n - 1 then [Sleep (backoff bf j)] else []))
             [0..<nat n]))
        \<and> attempts (snd (fetch_url_with_retry urlopen sleep n bf)) = [0..<nat n]
        \<and> sleeps (snd (fetch_url_with_retry urlopen sleep n bf)) =
            map (backoff bf) [0..<nat n - 1])
   \<and> (int k < n \<and> urlopen k = Inl e \<and> e \<noteq> URLError
        \<and> (\<forall>j<k. urlopen j = Inl URLError \<and> sleep_returns sleep bf j) \<longrightarrow>
        fetch_url_with_retry urlopen sleep n bf =
          (Inl e, concat (map (\<lambda>j. [Attempt j, Sleep (backoff bf j)]) [0..<k]) @ [Attempt k]))
   \<and> (int k < n - 1 \<and> (\<forall>j\<le>k. urlopen j = Inl URLError)
        \<and> (\<forall>j<k. sleep_returns sleep bf j) \<and> \<not> sleep_returns sleep bf k \<longrightarrow>
        fst (fetch_url_with_retry urlopen sleep n bf) = Inl (sleep_error sleep bf k)
        \<and> attempts (snd (fetch_url_with_retry urlopen sleep n bf)) = [0..<Suc k])
   \<and> ((\<forall>j. int j < n \<longrightarrow> urlopen j = Inl URLError \<or> (\<exists>r'. urlopen j = Inr r'))
        \<and> (\<forall>j. int j < n - 1 \<longrightarrow> sleep_returns sleep bf j) \<longrightarrow>
        ((\<exists>e'. fst (fetch_url_with_retry urlopen sleep n bf) = Inl e') \<longleftrightarrow>
         (\<forall>j. int j < n \<longrightarrow> urlopen j = Inl URLError)))
   \<and> backoff (Finite a) i = round64 (a * 2 ^ i)
   \<and> MAX_RETRIES = 3 \<and> BACKOFF_FACTOR = Finite (1 / 2)
   \<and> backoff BACKOFF_FACTOR 0 = Finite (1 / 2) \<and> backoff BACKOFF_FACTOR 1 = Finite 1"
proof -
  let ?F = "fetch_url_with_retry urlopen sleep n bf"
  have c1: "length (attempts (snd ?F)) \<le> nat n"
    using fetch_loop_attempts_bound [of urlopen sleep n bf 0]
    by (simp add: fetch_url_with_retry_def)
  have c2: "int k < n \<and> urlopen k = Inr r
        \<and> (\<forall>j<k. urlopen j = Inl URLError \<and> sleep_returns sleep bf j) \<longrightarrow>
        ?F = (Inr r, concat (map (\<lambda>j. [Attempt j, Sleep (backoff bf j)]) [0..<k]) @ [Attempt k])
        \<and> attempts (snd ?F) = [0..<Suc k]
        \<and> sleeps (snd ?F) = map (backoff bf) [0..<k]"
  proof (intro impI)
    assume h: "int k < n \<and> urlopen k = Inr r
        \<and> (\<forall>j<k. urlopen j = Inl URLError \<and> sleep_returns sleep bf j)"
    then have p: "\<forall>j<k. urlopen j = Inl URLError \<and> (int j < n - 1 \<longrightarrow> sleep_returns sleep bf j)"
      by simp
    have k: "int k \<le> n" using h by simp
    have l: "fetch_loop urlopen sleep n bf k = (Inr r, [Attempt k])"
      using h by (intro fetch_loop_response) auto
    have "?F = (Inr r, concat (map (\<lambda>j. [Attempt j, Sleep (backoff bf j)]) [0..<k]) @ [Attempt k])"
      using h by (intro fetch_success) auto
    moreover have "attempts (snd ?F) = [0..<Suc k]"
      using fetch_run(2) [OF k p] l by (simp add: attempts_simps)
    moreover have "sleeps (snd ?F) = map (backoff bf) [0..<k]"
      using fetch_run(3) [OF k p] l h by (simp add: sleeps_simps filter_upt_all)
    ultimately show "?F = (Inr r, concat (map (\<lambda>j. [Attempt j, Sleep (backoff bf j)]) [0..<k]) @ [Attempt k])
        \<and> attempts (snd ?F) = [0..<Suc k]
        \<and> sleeps (snd ?F) = map (backoff bf) [0..<k]"
      by (intro conjI)
  qed
  have c3: "(\<forall>j. int j < n \<longrightarrow> urlopen j = Inl URLError)
        \<and> (\<forall>j. int j < n - 1 \<longrightarrow> sleep_returns sleep bf j) \<longrightarrow>
        ?F = (Inl Exception,
           concat (map (\<lambda>j. Attempt j # (if int j < n - 1 then [Sleep (backoff bf j)] else []))
             [0..<nat n]))
        \<and> attempts (snd ?F) = [0..<nat n]
        \<and> sleeps (snd ?F) = map (backoff bf) [0..<nat n - 1]"
  proof (intro impI)
    assume h: "(\<forall>j. int j < n \<longrightarrow> urlopen j = Inl URLError)
        \<and> (\<forall>j. int j < n - 1 \<longrightarrow> sleep_returns sleep bf j)"
    then have f: "?F = (Inl Exception,
           concat (map (\<lambda>j. Attempt j # (if int j < n - 1 then [Sleep (backoff bf j)] else []))
             [0..<nat n]))"
      by (intro fetch_all_fail) auto
    then show "?F = (Inl Exception,
           concat (map (\<lambda>j. Attempt j # (if int j < n - 1 then [Sleep (backoff bf j)] else []))
             [0..<nat n]))
        \<and> attempts (snd ?F) = [0..<nat n]
        \<and> sleeps (snd ?F) = map (backoff bf) [0..<nat n - 1]"
      by (simp add: attempts_prefix sleeps_prefix filter_upt_less)
  qed
  have c4: "int k < n \<and> urlopen k = Inl e \<and> e \<noteq> URLError
        \<and> (\<forall>j<k. urlopen j = Inl URLError \<and> sleep_returns sleep bf j) \<longrightarrow>
        ?F = (Inl e, concat (map (\<lambda>j. [Attempt j, Sleep (backoff bf j)]) [0..<k]) @ [Attempt k])"
    using fetch_other [of k n urlopen e sleep bf] by blast
  have c5: "int k < n - 1 \<and> (\<forall>j\<le>k. urlopen j = Inl URLError)
        \<and> (\<forall>j<k. sleep_returns sleep bf j) \<and> \<not> sleep_returns sleep bf k \<longrightarrow>
        fst ?F = Inl (sleep_error sleep bf k) \<and> attempts (snd ?F) = [0..<Suc k]"
    using fetch_sleep_raises [of k n urlopen sleep bf] by blast
  have c6: "(\<forall>j. int j < n \<longrightarrow> urlopen j = Inl URLError \<or> (\<exists>r'. urlopen j = Inr r'))
        \<and> (\<forall>j. int j < n - 1 \<longrightarrow> sleep_returns sleep bf j) \<longrightarrow>
        ((\<exists>e'. fst ?F = Inl e') \<longleftrightarrow> (\<forall>j. int j < n \<longrightarrow> urlopen j = Inl URLError))"
  proof (intro impI)
    assume h: "(\<forall>j. int j < n \<longrightarrow> urlopen j = Inl URLError \<or> (\<exists>r'. urlopen j = Inr r'))
        \<and> (\<forall>j. int j < n - 1 \<longrightarrow> sleep_returns sleep bf j)"
    show "(\<exists>e'. fst ?F = Inl e') \<longleftrightarrow> (\<forall>j. int j < n \<longrightarrow> urlopen j = Inl URLError)"
    proof
      assume l: "\<exists>e'. fst ?F = Inl e'"
      show "\<forall>j. int j < n \<longrightarrow> urlopen j = Inl URLError"
      proof (rule ccontr)
        assume "\<not> (\<forall>j. int j < n \<longrightarrow> urlopen j = Inl URLError)"
        then obtain k' where k': "int k' < n" "urlopen k' \<noteq> Inl URLError"
            "\<forall>j<k'. urlopen j = Inl URLError"
          using fetch_first_response by blast
        then obtain r' where r': "urlopen k' = Inr r'" using h by blast
        have "\<forall>j<k'. urlopen j = Inl URLError \<and> sleep_returns sleep bf j"
          using k'(1,3) h by auto
        then have "fst ?F = Inr r'"
          using fetch_success [of k' n urlopen r' sleep bf] k'(1) r' by simp
        then show False using l by simp
      qed
    next
      assume "\<forall>j. int j < n \<longrightarrow> urlopen j = Inl URLError"
      then have "fst ?F = Inl Exception"
        using fetch_all_fail [of n urlopen sleep bf] h by simp
      then show "\<exists>e'. fst ?F = Inl e'" by blast
    qed
  qed
  have c7: "backoff (Finite a) i = round64 (a * 2 ^ i)" by (rule backoff_finite)
  have c8: "MAX_RETRIES = 3 \<and> BACKOFF_FACTOR = Finite (1 / 2)
      \<and> backoff BACKOFF_FACTOR 0 = Finite (1 / 2) \<and> backoff BACKOFF_FACTOR 1 = Finite 1"
    using backoff_default by (simp add: MAX_RETRIES_def BACKOFF_FACTOR_def)
  show ?thesis
    by (rule conjI [OF c1 conjI [OF c2 conjI [OF c3 conjI [OF c4 conjI [OF c5 conjI [OF c6
        conjI [OF c7 c8]]]]]]])
qed


theorem fetch_url_with_retry_spec_witness:
  "fetch_url_with_retry (\<lambda>i :: nat. if i = 2 then Inr (200 :: int) else Inl URLError)
     (\<lambda>i d. None) 3 (Finite (1 / 2)) =
     (Inr 200, [Attempt 0, Sleep (Finite (1 / 2)), Attempt 1, Sleep (Finite 1), Attempt 2])
   \<and> fst (fetch_url_with_retry (\<lambda>i :: nat. Inl URLError :: exn + int) (\<lambda>i d. None) 3
       (Finite (1 / 2))) = Inl Exception
   \<and> attempts (snd (fetch_url_with_retry (\<lambda>i :: nat. Inl URLError :: exn + int) (\<lambda>i d. None) 3
       (Finite (1 / 2)))) = [0, 1, 2]
   \<and> sleeps (snd (fetch_url_with_retry (\<lambda>i :: nat. Inl URLError :: exn + int) (\<lambda>i d. None) 3
       (Finite (1 / 2)))) = [Finite (1 / 2), Finite 1]
   \<and> (\<exists>e'. fst (fetch_url_with_retry (\<lambda>i :: nat. Inl URLError :: exn + int) (\<lambda>i d. None) 3
       (Finite (1 / 2))) = Inl e')
   \<and> fetch_url_with_retry
       (\<lambda>i :: nat. if i = 1 then Inl (OtherException ''RemoteDisconnected'') else Inl URLError
          :: exn + int)
       (\<lambda>i d. None) 3 (Finite (1 / 2)) =
     (Inl (OtherException ''RemoteDisconnected''),
      [Attempt 0, Sleep (Finite (1 / 2)), Attempt 1])
   \<and> fst (fetch_url_with_retry (\<lambda>i :: nat. Inl URLError :: exn + int)
       (\<lambda>i d. if i = 1 then Some (BaseException ''KeyboardInterrupt'') else None) 3
       (Finite (1 / 2))) = Inl (BaseException ''KeyboardInterrupt'')
   \<and> attempts (snd (fetch_url_with_retry (\<lambda>i :: nat. Inl URLError :: exn + int)
       (\<lambda>i d. if i = 1 then Some (BaseException ''KeyboardInterrupt'') else None) 3
       (Finite (1 / 2)))) = [0, 1]"
proof -
  let ?bf = "Finite (1 / 2)"
  let ?s = "\<lambda>(i :: nat) (d :: pyfloat). None :: exn option"
  let ?k = "\<lambda>(i :: nat) (d :: pyfloat).
      if i = 1 then Some (BaseException ''KeyboardInterrupt'') else None"
  let ?u = "\<lambda>i :: nat. if i = 2 then Inr (200 :: int) else Inl URLError"
  let ?v = "\<lambda>i :: nat. Inl URLError :: exn + int"
  let ?w = "\<lambda>i :: nat. if i = 1 then Inl (OtherException ''RemoteDisconnected'') else Inl URLError
      :: exn + int"
  have u2: "[0..<2] = [0, 1]" and u3: "[0..<nat 3] = [0, 1, 2]" and u3': "[0..<nat 3 - 1] = [0, 1]"
    and u1: "[0..<1] = [0]" and us: "[0..<Suc 1] = [0, 1]"
    by (simp_all add: upt_rec)
  have b0: "backoff ?bf 0 = Finite (1 / 2)" and b1: "backoff ?bf 1 = Finite 1"
    using backoff_default by (simp_all add: BACKOFF_FACTOR_def)
  have hu: "int 2 < 3 \<and> ?u 2 = Inr 200 \<and> (\<forall>j<2. ?u j = Inl URLError \<and> sleep_returns ?s ?bf j)"
    by (simp add: sleep_returns_def)
  have hv: "(\<forall>j. int j < 3 \<longrightarrow> ?v j = Inl URLError)
      \<and> (\<forall>j. int j < 3 - 1 \<longrightarrow> sleep_returns ?s ?bf j)"
    by (simp add: sleep_returns_def)
  have hw: "int 1 < 3 \<and> ?w 1 = Inl (OtherException ''RemoteDisconnected'')
      \<and> OtherException ''RemoteDisconnected'' \<noteq> URLError
      \<and> (\<forall>j<1. ?w j = Inl URLError \<and> sleep_returns ?s ?bf j)"
    by (simp add: sleep_returns_def)
  have hk: "int 1 < 3 - 1 \<and> (\<forall>j\<le>1. ?v j = Inl URLError)
      \<and> (\<forall>j<1. sleep_returns ?k ?bf j) \<and> \<not> sleep_returns ?k ?bf 1"
    by (simp add: sleep_returns_def)
  have hi: "(\<forall>j. int j < 3 \<longrightarrow> ?v j = Inl URLError \<or> (\<exists>r'. ?v j = Inr r'))
      \<and> (\<forall>j. int j < 3 - 1 \<longrightarrow> sleep_returns ?s ?bf j)"
    by (simp add: sleep_returns_def)
  note a = fetch_url_with_retry_spec [of ?u ?s 3 ?bf 2 200 URLError 0 0]
  note b = fetch_url_with_retry_spec [of ?v ?s 3 ?bf 0 0 URLError 0 0]
  note c = fetch_url_with_retry_spec [of ?w ?s 3 ?bf 1 0 "OtherException ''RemoteDisconnected''" 0 0]
  note d = fetch_url_with_retry_spec [of ?v ?k 3 ?bf 1 0 URLError 0 0]
  have "fetch_url_with_retry ?u ?s 3 ?bf =
          (Inr 200, concat (map (\<lambda>j. [Attempt j, Sleep (backoff ?bf j)]) [0..<2]) @ [Attempt 2])"
    using a [THEN conjunct2, THEN conjunct1, THEN mp, OF hu, THEN conjunct1] .
  then have r1: "fetch_url_with_retry ?u ?s 3 ?bf =
      (Inr 200, [Attempt 0, Sleep (Finite (1 / 2)), Attempt 1, Sleep (Finite 1), Attempt 2])"
    unfolding u2 using b0 b1 by simp
  note bb = b [THEN conjunct2, THEN conjunct2, THEN conjunct1, THEN mp, OF hv]
  have r2: "fst (fetch_url_with_retry ?v ?s 3 ?bf) = Inl Exception"
    using bb [THEN conjunct1] by simp
  have r3: "attempts (snd (fetch_url_with_retry ?v ?s 3 ?bf)) = [0, 1, 2]"
    using bb [THEN conjunct2, THEN conjunct1] unfolding u3 .
  have "sleeps (snd (fetch_url_with_retry ?v ?s 3 ?bf)) = map (backoff ?bf) [0, 1]"
    using bb [THEN conjunct2, THEN conjunct2] unfolding u3' .
  then have r4: "sleeps (snd (fetch_url_with_retry ?v ?s 3 ?bf)) = [Finite (1 / 2), Finite 1]"
    using b0 b1 by simp
  have r5: "\<exists>e'. fst (fetch_url_with_retry ?v ?s 3 ?bf) = Inl e'"
    using b [THEN conjunct2, THEN conjunct2, THEN conjunct2, THEN conjunct2, THEN conjunct2,
        THEN conjunct1, THEN mp, OF hi] hv by blast
  have "fetch_url_with_retry ?w ?s 3 ?bf =
      (Inl (OtherException ''RemoteDisconnected''),
       concat (map (\<lambda>j. [Attempt j, Sleep (backoff ?bf j)]) [0..<1]) @ [Attempt 1])"
    using c [THEN conjunct2, THEN conjunct2, THEN conjunct2, THEN conjunct1, THEN mp, OF hw] .
  then have r6: "fetch_url_with_retry ?w ?s 3 ?bf =
      (Inl (OtherException ''RemoteDisconnected''),
       [Attempt 0, Sleep (Finite (1 / 2)), Attempt 1])"
    unfolding u1 using b0 by simp
  note dd = d [THEN conjunct2, THEN conjunct2, THEN conjunct2, THEN conjunct2, THEN conjunct1,
      THEN mp, OF hk]
  have "sleep_error ?k ?bf 1 = BaseException ''KeyboardInterrupt''"
    by (simp add: sleep_error_def)
  then have r7: "fst (fetch_url_with_retry ?v ?k 3 ?bf) = Inl (BaseException ''KeyboardInterrupt'')"
    using dd [THEN conjunct1] by simp
  have r8: "attempts (snd (fetch_url_with_retry ?v ?k 3 ?bf)) = [0, 1]"
    using dd [THEN conjunct2] unfolding us .
  show ?thesis
    by (rule conjI [OF r1 conjI [OF r2 conjI [OF r3 conjI [OF r4 conjI [OF r5 conjI [OF r6
        conjI [OF r7 r8]]]]]]])
qed


section \<open>The orchestrator\<close>

lemma find_table_None:
  "find_table soup = None \<longleftrightarrow> (\<forall>t \<in> set (tables soup). ''data2_s'' \<notin> set (classes t))"
  by (auto simp: find_table_def find_None_iff)

lemma except_handlers_eq:
  "except_handlers e = (if is_Exception e then SystemExit 1 else Raises e)"
  by (cases e) (simp_all add: except_handlers_def)

lemma scraping_fetch_raises:
  "fst (fetch_url_with_retry urlopen sleep MAX_RETRIES BACKOFF_FACTOR) = Inl e \<Longrightarrow>
   scraping urlopen sleep BeautifulSoup date = (if is_Exception e then SystemExit 1 else Raises e)"
  by (simp add: scraping_def except_handlers_eq)

lemma scraping_read_raises:
  "fst (fetch_url_with_retry urlopen sleep MAX_RETRIES BACKOFF_FACTOR) = Inr r \<Longrightarrow>
   read r = Inl e \<Longrightarrow>
   scraping urlopen sleep BeautifulSoup date = (if is_Exception e then SystemExit 1 else Raises e)"
  by (simp add: scraping_def except_handlers_eq)

lemma scraping_parser_raises:
  "fst (fetch_url_with_retry urlopen sleep MAX_RETRIES BACKOFF_FACTOR) = Inr r \<Longrightarrow>
   read r = Inr m \<Longrightarrow> BeautifulSoup m = Inl e \<Longrightarrow>
   scraping urlopen sleep BeautifulSoup date =
     (if getcode r \<noteq> 200 \<or> is_Exception e then SystemExit 1 else Raises e)"
  by (simp add: scraping_def except_handlers_eq)

lemma scraping_parsed:
  "fst (fetch_url_with_retry urlopen sleep MAX_RETRIES BACKOFF_FACTOR) = Inr r \<Longrightarrow>
   read r = Inr m \<Longrightarrow> BeautifulSoup m = Inr soup \<Longrightarrow>
   scraping urlopen sleep BeautifulSoup date =
     (if structural_failure (getcode r) soup then SystemExit 1
      else (case find_table soup of
              None \<Rightarrow> SystemExit 1
            | Some tbl \<Rightarrow> Returns (extract_rows date tbl)))"
  by (auto simp: scraping_def structural_failure_def find_table_None [symmetric]
      split: option.splits)


lemma fetch_default_fail:
  "(\<forall>j<3. urlopen j = Inl URLError) \<Longrightarrow> (\<forall>j<2. sleep_returns sleep BACKOFF_FACTOR j) \<Longrightarrow>
   fst (fetch_url_with_retry urlopen sleep MAX_RETRIES BACKOFF_FACTOR) = Inl Exception"
  using fetch_all_fail [of 3 urlopen sleep BACKOFF_FACTOR] by (simp add: MAX_RETRIES_def)

lemma fetch_default_success:
  "k < 3 \<Longrightarrow> urlopen k = Inr r \<Longrightarrow>
   (\<forall>j<k. urlopen j = Inl URLError \<and> sleep_returns sleep BACKOFF_FACTOR j) \<Longrightarrow>
   fst (fetch_url_with_retry urlopen sleep MAX_RETRIES BACKOFF_FACTOR) = Inr r"
  using fetch_success [of k 3 urlopen r sleep BACKOFF_FACTOR] by (simp add: MAX_RETRIES_def)

lemma fetch_default_other:
  "k < 3 \<Longrightarrow> urlopen k = Inl e \<Longrightarrow> e \<noteq> URLError \<Longrightarrow>
   (\<forall>j<k. urlopen j = Inl URLError \<and> sleep_returns sleep BACKOFF_FACTOR j) \<Longrightarrow>
   fst (fetch_url_with_retry urlopen sleep MAX_RETRIES BACKOFF_FACTOR) = Inl e"
  using fetch_other [of k 3 urlopen e sleep BACKOFF_FACTOR] by (simp add: MAX_RETRIES_def)

text \<open>
  C8, as the specification states it: the process is terminated in exactly the three
  structural-failure cases, and the extractor's output is returned otherwise. When every
  attempt of the fetcher fails there is no response, so none of the three cases holds,
  and yet the process is terminated; and so it is when \<open>response.read()\<close> raises on a
  response of status 200.
\<close>

theorem scraping_exit_counterexample:
  "scraping (\<lambda>i. Inl URLError) (\<lambda>i d. None)
     (\<lambda>m. Inr \<lparr>html = True, head = True, body = True,
        tables = [\<lparr>classes = [''data2_s''], trs = []\<rparr>]\<rparr>)
     \<lparr>year = 2000, month = 1, day = 1\<rparr> = SystemExit 1
   \<and> scraping
     (\<lambda>i. Inr \<lparr>getcode = 200, read = Inl (OtherException ''IncompleteRead'')\<rparr>) (\<lambda>i d. None)
     (\<lambda>m. Inr \<lparr>html = True, head = True, body = True,
        tables = [\<lparr>classes = [''data2_s''], trs = []\<rparr>]\<rparr>)
     \<lparr>year = 2000, month = 1, day = 1\<rparr> = SystemExit 1"
proof -
  let ?bs = "\<lambda>m :: string. Inr \<lparr>html = True, head = True, body = True,
        tables = [\<lparr>classes = [''data2_s''], trs = []\<rparr>]\<rparr> :: exn + document"
  let ?d = "\<lparr>year = 2000, month = 1, day = 1\<rparr>"
  let ?r = "\<lparr>getcode = 200, read = Inl (OtherException ''IncompleteRead'')\<rparr>"
  have "fst (fetch_url_with_retry (\<lambda>i :: nat. Inl URLError :: exn + response) (\<lambda>i d. None)
      MAX_RETRIES BACKOFF_FACTOR) = Inl Exception"
    by (rule fetch_default_fail) (simp_all add: sleep_returns_def)
  then have a: "scraping (\<lambda>i. Inl URLError) (\<lambda>i d. None) ?bs ?d = SystemExit 1"
    by (simp add: scraping_fetch_raises)
  have "fst (fetch_url_with_retry (\<lambda>i :: nat. Inr ?r) (\<lambda>i d. None)
      MAX_RETRIES BACKOFF_FACTOR) = Inr ?r"
    by (rule fetch_default_success [where k = 0]) simp_all
  then have b: "scraping (\<lambda>i. Inr ?r) (\<lambda>i d. None) ?bs ?d = SystemExit 1"
    by (simp add: scraping_read_raises [where e = "OtherException ''IncompleteRead''"])
  show ?thesis by (rule conjI [OF a b])
qed

text \<open>
  C8, amended: \<open>scraping\<close> terminates the process with exit status 1 in exactly these
  cases: the fetcher, \<open>response.read()\<close> or the parser raises an instance of
  \<open>Exception\<close> (for the fetcher: all three attempts failed, or an attempt or a sleep
  raised another such exception), the status is not 200, the document lacks its \<open>html\<close>,
  \<open>head\<close> or \<open>body\<close> element, or no table of class \<open>data2_s\<close> is found. An exception that
  is no instance of \<open>Exception\<close> reaches the caller. Otherwise \<open>scraping\<close> returns the
  extractor's output on the first table of class \<open>data2_s\<close>.
\<close>

theorem scraping_outcomes:
  "(fst (fetch_url_with_retry urlopen sleep MAX_RETRIES BACKOFF_FACTOR) = Inl e \<longrightarrow>
      scraping urlopen sleep BeautifulSoup date =
        (if is_Exception e then SystemExit 1 else Raises e))
   \<and> (fst (fetch_url_with_retry urlopen sleep MAX_RETRIES BACKOFF_FACTOR) = Inr r
        \<and> read r = Inl e \<longrightarrow>
      scraping urlopen sleep BeautifulSoup date =
        (if is_Exception e then SystemExit 1 else Raises e))
   \<and> (fst (fetch_url_with_retry urlopen sleep MAX_RETRIES BACKOFF_FACTOR) = Inr r
        \<and> read r = Inr m \<and> BeautifulSoup m = Inl e \<longrightarrow>
      scraping urlopen sleep BeautifulSoup date =
        (if getcode r \<noteq> 200 \<or> is_Exception e then SystemExit 1 else Raises e))
   \<and> (fst (fetch_url_with_retry urlopen sleep MAX_RETRIES BACKOFF_FACTOR) = Inr r
        \<and> read r = Inr m \<and> BeautifulSoup m = Inr soup \<longrightarrow>
      (structural_failure (getcode r) soup \<longrightarrow>
         scraping urlopen sleep BeautifulSoup date = SystemExit 1)
      \<and> (\<not> structural_failure (getcode r) soup \<longrightarrow>
           (\<exists>tbl. find_table soup = Some tbl
              \<and> scraping urlopen sleep BeautifulSoup date = Returns (extract_rows date tbl))))
   \<and> (scraping urlopen sleep BeautifulSoup date = SystemExit 1 \<longleftrightarrow>
        exit_cases (fst (fetch_url_with_retry urlopen sleep MAX_RETRIES BACKOFF_FACTOR))
          BeautifulSoup)
   \<and> ((\<forall>j<3. urlopen j = Inl URLError) \<and> (\<forall>j<2. sleep_returns sleep BACKOFF_FACTOR j) \<longrightarrow>
        scraping urlopen sleep BeautifulSoup date = SystemExit 1)"
proof -
  let ?F = "fst (fetch_url_with_retry urlopen sleep MAX_RETRIES BACKOFF_FACTOR)"
  let ?S = "scraping urlopen sleep BeautifulSoup date"
  have c1: "?F = Inl e \<longrightarrow> ?S = (if is_Exception e then SystemExit 1 else Raises e)"
    using scraping_fetch_raises by blast
  have c2: "?F = Inr r \<and> read r = Inl e \<longrightarrow>
      ?S = (if is_Exception e then SystemExit 1 else Raises e)"
    using scraping_read_raises by blast
  have c3: "?F = Inr r \<and> read r = Inr m \<and> BeautifulSoup m = Inl e \<longrightarrow>
      ?S = (if getcode r \<noteq> 200 \<or> is_Exception e then SystemExit 1 else Raises e)"
    using scraping_parser_raises by blast
  have c4: "?F = Inr r \<and> read r = Inr m \<and> BeautifulSoup m = Inr soup \<longrightarrow>
      (structural_failure (getcode r) soup \<longrightarrow> ?S = SystemExit 1)
      \<and> (\<not> structural_failure (getcode r) soup \<longrightarrow>
           (\<exists>tbl. find_table soup = Some tbl \<and> ?S = Returns (extract_rows date tbl)))"
  proof (intro impI)
    assume h: "?F = Inr r \<and> read r = Inr m \<and> BeautifulSoup m = Inr soup"
    then have s: "?S = (if structural_failure (getcode r) soup then SystemExit 1
      else (case find_table soup of
              None \<Rightarrow> SystemExit 1
            | Some tbl \<Rightarrow> Returns (extract_rows date tbl)))"
      by (intro scraping_parsed) auto
    have "\<not> structural_failure (getcode r) soup \<longrightarrow>
           (\<exists>tbl. find_table soup = Some tbl \<and> ?S = Returns (extract_rows date tbl))"
    proof
      assume n: "\<not> structural_failure (getcode r) soup"
      then have "find_table soup \<noteq> None"
        by (simp add: structural_failure_def find_table_None)
      then obtain tbl where "find_table soup = Some tbl" by blast
      then show "\<exists>tbl. find_table soup = Some tbl \<and> ?S = Returns (extract_rows date tbl)"
        using s n by simp
    qed
    then show "(structural_failure (getcode r) soup \<longrightarrow> ?S = SystemExit 1)
      \<and> (\<not> structural_failure (getcode r) soup \<longrightarrow>
           (\<exists>tbl. find_table soup = Some tbl \<and> ?S = Returns (extract_rows date tbl)))"
      using s by simp
  qed
  have c5: "?S = SystemExit 1 \<longleftrightarrow> exit_cases ?F BeautifulSoup"
  proof (cases ?F)
    case (Inl e')
    then show ?thesis
      using scraping_fetch_raises [OF Inl, of BeautifulSoup date] by (simp add: exit_cases_def)
  next
    case (Inr r')
    show ?thesis
    proof (cases "read r'")
      case rl: (Inl e')
      then show ?thesis
        using scraping_read_raises [OF Inr rl, of BeautifulSoup date] Inr
        by (simp add: exit_cases_def)
    next
      case rr: (Inr m')
      show ?thesis
      proof (cases "BeautifulSoup m'")
        case bl: (Inl e')
        then show ?thesis
          using scraping_parser_raises [where BeautifulSoup = BeautifulSoup and date = date,
              OF Inr rr bl] Inr rr
          by (simp add: exit_cases_def)
      next
        case br: (Inr soup')
        then show ?thesis
          using scraping_parsed [where BeautifulSoup = BeautifulSoup and date = date,
              OF Inr rr br] Inr rr
          by (auto simp: exit_cases_def structural_failure_def find_table_None
              split: option.splits)
      qed
    qed
  qed
  have c6: "(\<forall>j<3. urlopen j = Inl URLError) \<and> (\<forall>j<2. sleep_returns sleep BACKOFF_FACTOR j) \<longrightarrow>
        ?S = SystemExit 1"
  proof (intro impI)
    assume "(\<forall>j<3. urlopen j = Inl URLError) \<and> (\<forall>j<2. sleep_returns sleep BACKOFF_FACTOR j)"
    then have "?F = Inl Exception" by (intro fetch_default_fail) auto
    then show "?S = SystemExit 1" by (simp add: scraping_fetch_raises)
  qed
  show ?thesis
    by (rule conjI [OF c1 conjI [OF c2 conjI [OF c3 conjI [OF c4 conjI [OF c5 c6]]]]])
qed


theorem scraping_outcomes_witness:
  "scraping (\<lambda>i. Inl URLError) (\<lambda>i d. None)
     (\<lambda>m. Inr \<lparr>html = True, head = True, body = True,
        tables = [\<lparr>classes = [''data2_s''], trs = [[], [], [None]]\<rparr>]\<rparr>)
     \<lparr>year = 2000, month = 1, day = 1\<rparr> = SystemExit 1
   \<and> scraping (\<lambda>i. Inl (BaseException ''KeyboardInterrupt'')) (\<lambda>i d. None)
     (\<lambda>m. Inr \<lparr>html = True, head = True, body = True,
        tables = [\<lparr>classes = [''data2_s''], trs = [[], [], [None]]\<rparr>]\<rparr>)
     \<lparr>year = 2000, month = 1, day = 1\<rparr> = Raises (BaseException ''KeyboardInterrupt'')
   \<and> scraping
     (\<lambda>i. if i = 1 then Inr \<lparr>getcode = 200, read = Inl (OtherException ''IncompleteRead'')\<rparr>
          else Inl URLError)
     (\<lambda>i d. None)
     (\<lambda>m. Inr \<lparr>html = True, head = True, body = True,
        tables = [\<lparr>classes = [''data2_s''], trs = [[], [], [None]]\<rparr>]\<rparr>)
     \<lparr>year = 2000, month = 1, day = 1\<rparr> = SystemExit 1
   \<and> scraping
     (\<lambda>i. if i = 1 then Inr \<lparr>getcode = 200, read = Inr ''<html>''\<rparr> else Inl URLError)
     (\<lambda>i d. None)
     (\<lambda>m. Inl (OtherException ''ParserRejectedMarkup''))
     \<lparr>year = 2000, month = 1, day = 1\<rparr> = SystemExit 1
   \<and> scraping
     (\<lambda>i. if i = 1 then Inr \<lparr>getcode = 200, read = Inr ''<html>''\<rparr> else Inl URLError)
     (\<lambda>i d. None)
     (\<lambda>m. Inr \<lparr>html = True, head = True, body = True,
        tables = [\<lparr>classes = [''data2_s''], trs = [[], [], [None]]\<rparr>]\<rparr>)
     \<lparr>year = 2000, month = 1, day = 1\<rparr> = Returns []
   \<and> scraping
     (\<lambda>i. if i = 1 then Inr \<lparr>getcode = 200, read = Inr ''<html>''\<rparr> else Inl URLError)
     (\<lambda>i d. None)
     (\<lambda>m. Inr \<lparr>html = True, head = True, body = True,
        tables = [\<lparr>classes = [''data''], trs = []\<rparr>]\<rparr>)
     \<lparr>year = 2000, month = 1, day = 1\<rparr> = SystemExit 1"
proof -
  let ?d = "\<lparr>year = 2000, month = 1, day = 1\<rparr>"
  let ?s = "\<lambda>(i :: nat) (d :: pyfloat). None :: exn option"
  let ?tbl = "\<lparr>classes = [''data2_s''], trs = [[], [], [None]]\<rparr>"
  let ?good = "\<lparr>html = True, head = True, body = True, tables = [?tbl]\<rparr>"
  let ?bad = "\<lparr>html = True, head = True, body = True,
      tables = [\<lparr>classes = [''data''], trs = []\<rparr>]\<rparr>"
  let ?bs = "\<lambda>m :: string. Inr ?good :: exn + document"
  let ?bb = "\<lambda>m :: string. Inr ?bad :: exn + document"
  let ?br = "\<lambda>m :: string. Inl (OtherException ''ParserRejectedMarkup'') :: exn + document"
  let ?ki = "BaseException ''KeyboardInterrupt''"
  let ?rr = "\<lparr>getcode = 200, read = Inl (OtherException ''IncompleteRead'')\<rparr>"
  let ?ok = "\<lparr>getcode = 200, read = Inr ''<html>''\<rparr>"
  let ?u0 = "\<lambda>i :: nat. Inl URLError :: exn + response"
  let ?u1 = "\<lambda>i :: nat. Inl ?ki :: exn + response"
  let ?u2 = "\<lambda>i :: nat. if i = 1 then Inr ?rr else Inl URLError"
  let ?u3 = "\<lambda>i :: nat. if i = 1 then Inr ?ok else Inl URLError"
  have f0: "fst (fetch_url_with_retry ?u0 ?s MAX_RETRIES BACKOFF_FACTOR) = Inl Exception"
    by (rule fetch_default_fail) (simp_all add: sleep_returns_def)
  have f1: "fst (fetch_url_with_retry ?u1 ?s MAX_RETRIES BACKOFF_FACTOR) = Inl ?ki"
    by (rule fetch_default_other [where k = 0]) simp_all
  have f2: "fst (fetch_url_with_retry ?u2 ?s MAX_RETRIES BACKOFF_FACTOR) = Inr ?rr"
    by (rule fetch_default_success [where k = 1]) (simp_all add: sleep_returns_def)
  have f3: "fst (fetch_url_with_retry ?u3 ?s MAX_RETRIES BACKOFF_FACTOR) = Inr ?ok"
    by (rule fetch_default_success [where k = 1]) (simp_all add: sleep_returns_def)
  have r0: "scraping ?u0 ?s ?bs ?d = SystemExit 1"
    using scraping_outcomes [of ?u0 ?s Exception ?bs ?d ?ok "''<html>''" ?good,
        THEN conjunct1, THEN mp, OF f0] by simp
  have r1: "scraping ?u1 ?s ?bs ?d = Raises ?ki"
    using scraping_outcomes [of ?u1 ?s ?ki ?bs ?d ?ok "''<html>''" ?good,
        THEN conjunct1, THEN mp, OF f1] by simp
  have h2: "fst (fetch_url_with_retry ?u2 ?s MAX_RETRIES BACKOFF_FACTOR) = Inr ?rr
      \<and> read ?rr = Inl (OtherException ''IncompleteRead'')"
    using f2 by simp
  have r2: "scraping ?u2 ?s ?bs ?d = SystemExit 1"
    using scraping_outcomes [of ?u2 ?s "OtherException ''IncompleteRead''" ?bs ?d ?rr
        "''<html>''" ?good, THEN conjunct2, THEN conjunct1, THEN mp, OF h2] by simp
  have h3: "fst (fetch_url_with_retry ?u3 ?s MAX_RETRIES BACKOFF_FACTOR) = Inr ?ok
      \<and> read ?ok = Inr ''<html>'' \<and> ?br ''<html>'' = Inl (OtherException ''ParserRejectedMarkup'')"
    using f3 by simp
  have r3: "scraping ?u3 ?s ?br ?d = SystemExit 1"
    using scraping_outcomes [of ?u3 ?s "OtherException ''ParserRejectedMarkup''" ?br ?d ?ok
        "''<html>''" ?good, THEN conjunct2, THEN conjunct2, THEN conjunct1, THEN mp, OF h3]
    by simp
  have h4: "fst (fetch_url_with_retry ?u3 ?s MAX_RETRIES BACKOFF_FACTOR) = Inr ?ok
      \<and> read ?ok = Inr ''<html>'' \<and> ?bs ''<html>'' = Inr ?good"
    using f3 by simp
  have ng: "\<not> structural_failure (getcode ?ok) ?good" by (simp add: structural_failure_def)
  have eg: "\<exists>tbl. find_table ?good = Some tbl
      \<and> scraping ?u3 ?s ?bs ?d = Returns (extract_rows ?d tbl)"
    using scraping_outcomes [of ?u3 ?s URLError ?bs ?d ?ok "''<html>''" ?good,
        THEN conjunct2, THEN conjunct2, THEN conjunct2, THEN conjunct1, THEN mp, OF h4,
        THEN conjunct2, THEN mp, OF ng] .
  have fg: "find_table ?good = Some ?tbl" by (simp add: find_table_def)
  have xg: "extract_rows ?d ?tbl = []" by (simp add: extract_rows_def)
  obtain tbl where t: "find_table ?good = Some tbl"
    and s: "scraping ?u3 ?s ?bs ?d = Returns (extract_rows ?d tbl)"
    using eg by (elim exE conjE)
  have "tbl = ?tbl" using t fg by (simp only: option.inject)
  then have r4: "scraping ?u3 ?s ?bs ?d = Returns []" using s xg by (simp only:)
  have h5: "fst (fetch_url_with_retry ?u3 ?s MAX_RETRIES BACKOFF_FACTOR) = Inr ?ok
      \<and> read ?ok = Inr ''<html>'' \<and> ?bb ''<html>'' = Inr ?bad"
    using f3 by simp
  have sb: "structural_failure (getcode ?ok) ?bad" by (simp add: structural_failure_def)
  have r5: "scraping ?u3 ?s ?bb ?d = SystemExit 1"
    using scraping_outcomes [of ?u3 ?s URLError ?bb ?d ?ok "''<html>''" ?bad,
        THEN conjunct2, THEN conjunct2, THEN conjunct2, THEN conjunct1, THEN mp, OF h5,
        THEN conjunct1, THEN mp, OF sb] .
  show ?thesis
    by (rule conjI [OF r0 conjI [OF r1 conjI [OF r2 conjI [OF r3 conjI [OF r4 r5]]]]])
qed

end
